theory Spec2Isabelle
  imports Complex_Main "HOL-Library.Char_ord" "HOL-Library.List_Lexorder" "HOL-Library.Multiset"
    "HOL-Library.Monad_Syntax"
begin

section \<open>The dashboard's data model\<close>

text \<open>
  The repository holds two variants of one dashboard component: \<^verbatim>\<open>src/App.tsx\<close> (charts by
  Tremor) and an older copy (charts by recharts). Both declare the same four interfaces.
  A JSON number is modelled as an \<open>int\<close>, a string as a \<open>string\<close> (a list of code units below
  256). Field names shared by several interfaces carry the interface as a suffix. The two
  fields the code reads through \<^verbatim>\<open>||\<close> (\<^verbatim>\<open>job.type\<close>, \<^verbatim>\<open>agent.onChainBalance\<close>) are options:
  \<open>None\<close> is the field missing from the response.
\<close>

record DashboardStats =
  totalAgents :: int
  totalJobs :: int
  openJobs :: int
  claimedJobs :: int
  completedJobs :: int
  totalRewardsPaid :: int
  totalRewardsEscrowed :: int

record Agent =
  id_agent :: string
  name_agent :: string
  jobs_completed :: int
  jobs_posted :: int
  reputation :: int
  onChainBalance :: "string option"
  created_at_agent :: string
  specialties :: "string list"

record Job =
  id_job :: string
  title :: string
  reward :: int
  status :: string
  type_job :: "string option"
  created_at_job :: string

record ActivityItem =
  id_item :: string
  type_item :: string
  agent_name :: string
  job_title :: "string option"
  timestamp :: string

section \<open>JavaScript built-ins the aggregations use\<close>

subsection \<open>Numbers with NaN, and the logical or\<close>

text \<open>
  An integer-valued JavaScript number, or NaN (\<open>None\<close>). Integers are exact here; a
  JavaScript number is exact up to \<open>2^53\<close> in magnitude.
\<close>

type_synonym number = "int option"

definition minus_number :: "number \<Rightarrow> number \<Rightarrow> number" where
  "minus_number x y = (case (x, y) of (Some a, Some b) \<Rightarrow> Some (a - b) | _ \<Rightarrow> None)"

text \<open>\<^verbatim>\<open>s || d\<close> on a string field: the default replaces a missing or empty string.\<close>

definition orElse :: "string option \<Rightarrow> string \<Rightarrow> string" where
  "orElse s d = (case s of None \<Rightarrow> d | Some v \<Rightarrow> if v = [] then d else v)"

subsection \<open>Array.prototype.sort, slice\<close>

text \<open>
  \<^verbatim>\<open>Array.prototype.sort(comparefn)\<close> is stable, and a comparator result of NaN counts as
  \<open>+0\<close>. For a comparator that is a consistent ordering of the elements the result is the one
  stable sorted arrangement, which insertion from the right computes: an element moves
  behind the elements it compares greater than. (For an inconsistent comparator ECMAScript
  leaves the order to the implementation.)
\<close>

definition positive :: "number \<Rightarrow> bool" where
  "positive v = (case v of None \<Rightarrow> False | Some n \<Rightarrow> 0 < n)"

fun insertSorted :: "('a \<Rightarrow> 'a \<Rightarrow> number) \<Rightarrow> 'a \<Rightarrow> 'a list \<Rightarrow> 'a list" where
  "insertSorted comparefn x [] = [x]"
| "insertSorted comparefn x (y # ys) =
     (if positive (comparefn x y) then y # insertSorted comparefn x ys else x # y # ys)"

definition arraySort :: "('a \<Rightarrow> 'a \<Rightarrow> number) \<Rightarrow> 'a list \<Rightarrow> 'a list" where
  "arraySort comparefn xs = foldr (insertSorted comparefn) xs []"

text \<open>\<^verbatim>\<open>xs.slice(0, n)\<close>.\<close>

definition slice0 :: "nat \<Rightarrow> 'a list \<Rightarrow> 'a list" where
  "slice0 n xs = take n xs"

subsection \<open>parseInt\<close>

text \<open>
  \<^verbatim>\<open>parseInt(string, radix)\<close> after ECMAScript: leading white space is dropped, a sign is
  read, with radix 0 (undefined) or 16 a prefix \<^verbatim>\<open>0x\<close> selects base 16, the longest prefix
  of digits of the radix is the value, and no digit at all is NaN. Radix 0 stands for a
  call without radix.
\<close>

definition isWhiteSpace :: "char \<Rightarrow> bool" where
  "isWhiteSpace c = (of_char c \<in> {9, 10, 11, 12, 13, 32, 160 :: nat})"

definition digitValue :: "char \<Rightarrow> nat option" where
  "digitValue c =
     (let n = of_char c :: nat
      in if 48 \<le> n \<and> n \<le> 57 then Some (n - 48)
         else if 97 \<le> n \<and> n \<le> 122 then Some (n - 87)
         else if 65 \<le> n \<and> n \<le> 90 then Some (n - 55)
         else None)"

definition isRadixDigit :: "nat \<Rightarrow> char \<Rightarrow> bool" where
  "isRadixDigit R c = (case digitValue c of None \<Rightarrow> False | Some v \<Rightarrow> v < R)"

definition mathInt :: "nat \<Rightarrow> string \<Rightarrow> int" where
  "mathInt R Z =
     foldl (\<lambda>acc c. acc * int R + (case digitValue c of None \<Rightarrow> 0 | Some v \<Rightarrow> int v)) 0 Z"

definition parseInt :: "string \<Rightarrow> nat \<Rightarrow> number" where
  "parseInt inputString radix =
     (let S = dropWhile isWhiteSpace inputString;
          sign = (if S \<noteq> [] \<and> hd S = CHR ''-'' then - 1 else 1 :: int);
          S1 = (if S \<noteq> [] \<and> (hd S = CHR ''+'' \<or> hd S = CHR ''-'') then tl S else S)
      in if radix \<noteq> 0 \<and> (radix < 2 \<or> 36 < radix) then None
         else
           let stripPrefix = (radix = 0 \<or> radix = 16);
               hex = (stripPrefix \<and> (take 2 S1 = ''0x'' \<or> take 2 S1 = ''0X''));
               S2 = (if hex then drop 2 S1 else S1);
               R = (if hex then 16 else if radix = 0 then 10 else radix);
               Z = takeWhile (isRadixDigit R) S2
           in if Z = [] then None else Some (sign * mathInt R Z))"

subsection \<open>Plain objects used as dictionaries\<close>

text \<open>
  Both variants tally into an object literal: \<^verbatim>\<open>acc[key] = (acc[key] || 0) + 1\<close> on
  \<^verbatim>\<open>{} as Record<string, number>\<close>. Such an object inherits from \<^verbatim>\<open>Object.prototype\<close>, so
  a key that names one of the prototype's properties reads as that property, not as
  undefined. An object is the list of its own properties in creation order; a property
  holds a count, or the text that \<^verbatim>\<open>+ 1\<close> builds when the left operand is not a number.
\<close>

datatype tally = Count nat | Text string

type_synonym jsobject = "(string \<times> tally) list"

definition prototypeFunctions :: "string list" where
  "prototypeFunctions =
     [''constructor'', ''__defineGetter__'', ''__defineSetter__'', ''hasOwnProperty'',
      ''__lookupGetter__'', ''__lookupSetter__'', ''isPrototypeOf'', ''propertyIsEnumerable'',
      ''toString'', ''valueOf'', ''toLocaleString'']"

definition inherited :: "string \<Rightarrow> bool" where
  "inherited k = (k = ''__proto__'' \<or> k \<in> set prototypeFunctions)"

text \<open>The text a native function converts to, as V8 prints it.\<close>

definition functionText :: "string \<Rightarrow> string" where
  "functionText k =
     ''function '' @ (if k = ''constructor'' then ''Object'' else k) @ ''() { [native code] }''"

fun update :: "'k \<Rightarrow> 'v \<Rightarrow> ('k \<times> 'v) list \<Rightarrow> ('k \<times> 'v) list" where
  "update k v [] = [(k, v)]"
| "update k v ((k', v') # ps) = (if k' = k then (k, v) # ps else (k', v') # update k v ps)"

text \<open>
  \<^verbatim>\<open>acc[k] = (acc[k] || 0) + 1\<close>. An own count is incremented; an own text is truthy and has
  \<^verbatim>\<open>"1"\<close> appended; a missing key starts at 1, unless the prototype has it: an inherited
  function is truthy and its text plus \<^verbatim>\<open>"1"\<close> becomes an own property, and for \<^verbatim>\<open>__proto__\<close>
  the assignment of a string goes to the prototype's setter, which ignores it.
\<close>

definition countKey :: "jsobject \<Rightarrow> string \<Rightarrow> jsobject" where
  "countKey acc k =
     (case map_of acc k of
        Some (Count n) \<Rightarrow> update k (Count (if n = 0 then 1 else n + 1)) acc
      | Some (Text s) \<Rightarrow> update k (if s = [] then Count 1 else Text (s @ ''1'')) acc
      | None \<Rightarrow>
          if k = ''__proto__'' then acc
          else if inherited k then update k (Text (functionText k @ ''1'')) acc
          else update k (Count 1) acc)"

text \<open>
  \<^verbatim>\<open>Object.entries\<close>: the keys that are array indices (canonical decimal numerals below
  \<open>2^32 - 1\<close>) come first in ascending numeric order, then the other keys in creation order.
\<close>

definition isArrayIndex :: "string \<Rightarrow> bool" where
  "isArrayIndex k =
     (k \<noteq> [] \<and> (\<forall>c\<in>set k. isRadixDigit 10 c) \<and> (k = ''0'' \<or> hd k \<noteq> CHR ''0'') \<and>
      mathInt 10 k < 2 ^ 32 - 1)"

definition entries :: "jsobject \<Rightarrow> (string \<times> tally) list" where
  "entries obj =
     sort_key (\<lambda>p. mathInt 10 (fst p)) (filter (\<lambda>p. isArrayIndex (fst p)) obj) @
     filter (\<lambda>p. \<not> isArrayIndex (fst p)) obj"


text \<open>Decimal digits of a natural number, and padding with zeros on the left.\<close>

fun digitsOf :: "nat \<Rightarrow> string" where
  "digitsOf n = (if n < 10 then [char_of (48 + n)] else digitsOf (n div 10) @ [char_of (48 + n mod 10)])"

text \<open>\<^verbatim>\<open>x + y\<close> on two property values: addition of numbers, else concatenation of texts.\<close>

definition plus_tally :: "tally \<Rightarrow> tally \<Rightarrow> tally" where
  "plus_tally x y =
     (case (x, y) of
        (Count a, Count b) \<Rightarrow> Count (a + b)
      | (Count a, Text s) \<Rightarrow> Text (digitsOf a @ s)
      | (Text s, Count b) \<Rightarrow> Text (s @ digitsOf b)
      | (Text s, Text u) \<Rightarrow> Text (s @ u))"

subsection \<open>Dates\<close>

text \<open>
  A \<^verbatim>\<open>Date\<close> holds a time value, the milliseconds since 1970-01-01T00:00:00Z, or NaN
  (\<open>Invalid Date\<close>). What \<^verbatim>\<open>new Date(string)\<close> reads from a string and the offset of local
  time belong to the environment the program runs in.
\<close>

record environment =
  dateParse :: "string \<Rightarrow> number"
  localTZA :: "int \<Rightarrow> int"

definition msPerDay :: int where
  "msPerDay = 86400000"

text \<open>
  The calendar of ECMAScript, on day numbers (day 0 is 1970-01-01): \<^verbatim>\<open>DayFromYear\<close>, the day
  a year starts on; \<^verbatim>\<open>InLeapYear\<close>; \<^verbatim>\<open>YearFromTime\<close>, the last year that starts on or before
  the day, found by counting up from a year that starts no later.
\<close>

definition dayFromYear :: "int \<Rightarrow> int" where
  "dayFromYear y = 365 * (y - 1970) + (y - 1969) div 4 - (y - 1901) div 100 + (y - 1601) div 400"

definition inLeapYear :: "int \<Rightarrow> int" where
  "inLeapYear y = (if y mod 4 \<noteq> 0 then 0 else if y mod 100 \<noteq> 0 then 1 else if y mod 400 \<noteq> 0 then 0 else 1)"

function yearFrom :: "int \<Rightarrow> int \<Rightarrow> int" where
  "yearFrom d y = (if dayFromYear (y + 1) \<le> d then yearFrom d (y + 1) else y)"
  by pat_completeness auto
termination
proof (relation "measure (\<lambda>(d, y). nat (d - dayFromYear y))")
  show "wf (measure (\<lambda>(d, y). nat (d - dayFromYear y)))" by simp
next
  fix d y :: int
  assume a: "dayFromYear (y + 1) \<le> d"
  have "(y - 1969) div 4 \<le> (y + 1 - 1969) div 4" by (intro zdiv_mono1) simp_all
  moreover have "(y + 1 - 1901) div 100 \<le> (y - 1901 + 100) div 100" by (intro zdiv_mono1) simp_all
  moreover have "(y - 1601) div 400 \<le> (y + 1 - 1601) div 400" by (intro zdiv_mono1) simp_all
  moreover have "(y - 1801) div 100 = (y - 1901) div 100 + 1"
    using div_add_self2 [of 100 "y - 1901"] by simp
  ultimately have "dayFromYear y < dayFromYear (y + 1)" by (simp add: dayFromYear_def)
  with a show "((d, y + 1), (d, y)) \<in> measure (\<lambda>(d, y). nat (d - dayFromYear y))"
    by simp
qed

declare yearFrom.simps [simp del]

definition yearFromDay :: "int \<Rightarrow> int" where
  "yearFromDay d = yearFrom d (1970 + (if 0 \<le> d then d div 366 else d div 365))"

text \<open>\<^verbatim>\<open>MonthFromTime\<close> (0 to 11) and \<^verbatim>\<open>DateFromTime\<close> of the day within the year.\<close>

definition monthFromTime :: "int \<Rightarrow> int \<Rightarrow> int" where
  "monthFromTime dayWithinYear leap =
     (if dayWithinYear < 31 then 0
      else if dayWithinYear < 59 + leap then 1
      else if dayWithinYear < 90 + leap then 2
      else if dayWithinYear < 120 + leap then 3
      else if dayWithinYear < 151 + leap then 4
      else if dayWithinYear < 181 + leap then 5
      else if dayWithinYear < 212 + leap then 6
      else if dayWithinYear < 243 + leap then 7
      else if dayWithinYear < 273 + leap then 8
      else if dayWithinYear < 304 + leap then 9
      else if dayWithinYear < 334 + leap then 10
      else 11)"

definition dateFromTime :: "int \<Rightarrow> int \<Rightarrow> int" where
  "dateFromTime dayWithinYear leap =
     (let m = monthFromTime dayWithinYear leap
      in if m = 0 then dayWithinYear + 1
         else if m = 1 then dayWithinYear - 30
         else if m = 2 then dayWithinYear - 58 - leap
         else if m = 3 then dayWithinYear - 89 - leap
         else if m = 4 then dayWithinYear - 119 - leap
         else if m = 5 then dayWithinYear - 150 - leap
         else if m = 6 then dayWithinYear - 180 - leap
         else if m = 7 then dayWithinYear - 211 - leap
         else if m = 8 then dayWithinYear - 242 - leap
         else if m = 9 then dayWithinYear - 272 - leap
         else if m = 10 then dayWithinYear - 303 - leap
         else dayWithinYear - 333 - leap)"

text \<open>The proleptic Gregorian date (year, month, day) of a day number, the month from 1 to 12.\<close>

definition civilFromDays :: "int \<Rightarrow> int \<times> int \<times> int" where
  "civilFromDays d =
     (let y = yearFromDay d;
          dayWithinYear = d - dayFromYear y;
          leap = inLeapYear y
      in (y, monthFromTime dayWithinYear leap + 1, dateFromTime dayWithinYear leap))"

text \<open>The day number of a date (year, month, day).\<close>

definition daysFromCivil :: "int \<Rightarrow> int \<Rightarrow> int \<Rightarrow> int" where
  "daysFromCivil y0 m d =
     (let y = (if m \<le> 2 then y0 - 1 else y0);
          era = y div 400;
          yoe = y - era * 400;
          doy = (153 * (if 2 < m then m - 3 else m + 9) + 2) div 5 + d - 1;
          doe = yoe * 365 + yoe div 4 - yoe div 100 + doy
      in era * 146097 + doe - 719468)"

definition padStart :: "nat \<Rightarrow> string \<Rightarrow> string" where
  "padStart w s = replicate (w - length s) CHR ''0'' @ s"

text \<open>
  \<^verbatim>\<open>Date.prototype.toISOString\<close> of a time value: \<^verbatim>\<open>YYYY-MM-DDTHH:mm:ss.sssZ\<close>, the year
  with a sign and six digits outside 0 to 9999.
\<close>

definition toISOString :: "int \<Rightarrow> string" where
  "toISOString t =
     (let (y, m, d) = civilFromDays (t div msPerDay);
          ms = t mod msPerDay;
          year = (if 0 \<le> y \<and> y \<le> 9999 then padStart 4 (digitsOf (nat y))
                  else (if y < 0 then ''-'' else ''+'') @ padStart 6 (digitsOf (nat \<bar>y\<bar>)))
      in year @ ''-'' @ padStart 2 (digitsOf (nat m)) @ ''-'' @ padStart 2 (digitsOf (nat d)) @ ''T'' @
         padStart 2 (digitsOf (nat (ms div 3600000))) @ '':'' @
         padStart 2 (digitsOf (nat (ms div 60000 mod 60))) @ '':'' @
         padStart 2 (digitsOf (nat (ms div 1000 mod 60))) @ ''.'' @
         padStart 3 (digitsOf (nat (ms mod 1000))) @ ''Z'')"

text \<open>
  The day key of App.tsx is \<^verbatim>\<open>toISOString().slice(0, 10)\<close>. For the years 0 to 9999 it is the
  year, the month and the day in four, two and two digits; \<open>zeroPadded w n\<close> is the text of
  the last \<open>w\<close> digits of \<open>n\<close>, and \<open>earlierDate\<close> the order of calendar dates.
\<close>

definition fourDigitYear :: "int \<Rightarrow> bool" where
  "fourDigitYear t = (let (y, m, d) = civilFromDays (t div msPerDay) in 0 \<le> y \<and> y \<le> 9999)"

fun zeroPadded :: "nat \<Rightarrow> nat \<Rightarrow> string" where
  "zeroPadded 0 n = []"
| "zeroPadded (Suc w) n = zeroPadded w (n div 10) @ [char_of (48 + n mod 10)]"

definition earlierDate :: "int \<times> int \<times> int \<Rightarrow> int \<times> int \<times> int \<Rightarrow> bool" where
  "earlierDate a b =
     (fst a < fst b \<or>
      fst a = fst b \<and> (fst (snd a) < fst (snd b) \<or> fst (snd a) = fst (snd b) \<and> snd (snd a) < snd (snd b)))"

text \<open>
  \<^verbatim>\<open>toLocaleDateString('en-US', { month: 'short', day: 'numeric' })\<close>: the month and day
  of the local date, \<^verbatim>\<open>Jan 5\<close>; of an invalid date, the text \<^verbatim>\<open>Invalid Date\<close>.
\<close>

definition monthShort :: "int \<Rightarrow> string" where
  "monthShort m =
     (if m = 1 then ''Jan'' else if m = 2 then ''Feb'' else if m = 3 then ''Mar''
      else if m = 4 then ''Apr'' else if m = 5 then ''May'' else if m = 6 then ''Jun''
      else if m = 7 then ''Jul'' else if m = 8 then ''Aug'' else if m = 9 then ''Sep''
      else if m = 10 then ''Oct'' else if m = 11 then ''Nov'' else ''Dec'')"

definition toLocaleDateString :: "environment \<Rightarrow> number \<Rightarrow> string" where
  "toLocaleDateString env tv =
     (case tv of
        None \<Rightarrow> ''Invalid Date''
      | Some t \<Rightarrow>
          let (y, m, d) = civilFromDays ((t + localTZA env t) div msPerDay)
          in monthShort m @ '' '' @ digitsOf (nat d))"

text \<open>
  \<^verbatim>\<open>a.localeCompare(b)\<close>, as the comparison of the code units; on the day keys of the
  years 0 to 9999, built of digits and hyphens at fixed places, the locale's collation
  orders the same way.
\<close>

definition localeCompare :: "string \<Rightarrow> string \<Rightarrow> int" where
  "localeCompare a b = (if a < b then - 1 else if a = b then 0 else 1)"

subsection \<open>An environment for examples\<close>

text \<open>
  A viewer in UTC whose \<^verbatim>\<open>Date\<close> reads the formats \<^verbatim>\<open>YYYY-MM-DD\<close>,
  \<^verbatim>\<open>YYYY-MM-DDTHH:mm:ss.sssZ\<close> and \<^verbatim>\<open>Mon D YYYY\<close>, and nothing else.
\<close>

definition monthNames :: "string list" where
  "monthNames = [''Jan'', ''Feb'', ''Mar'', ''Apr'', ''May'', ''Jun'', ''Jul'', ''Aug'', ''Sep'',
                 ''Oct'', ''Nov'', ''Dec'']"

definition digitsValue :: "string \<Rightarrow> int option" where
  "digitsValue s = (if s \<noteq> [] \<and> (\<forall>c\<in>set s. isRadixDigit 10 c) then Some (mathInt 10 s) else None)"

definition daysInMonth :: "int \<Rightarrow> int \<Rightarrow> int" where
  "daysInMonth y m =
     (if m = 2 then (if y mod 4 = 0 \<and> (y mod 100 \<noteq> 0 \<or> y mod 400 = 0) then 29 else 28)
      else if m \<in> {4, 6, 9, 11} then 30 else 31)"

definition makeDay :: "int \<Rightarrow> int \<Rightarrow> int \<Rightarrow> int option" where
  "makeDay y m d =
     (if 1 \<le> m \<and> m \<le> 12 \<and> 1 \<le> d \<and> d \<le> daysInMonth y m then Some (daysFromCivil y m d) else None)"

definition parseIsoDate :: "string \<Rightarrow> int option" where
  "parseIsoDate s =
     (if length s = 10 \<and> s ! 4 = CHR ''-'' \<and> s ! 7 = CHR ''-'' then
        do {
          y \<leftarrow> digitsValue (take 4 s);
          m \<leftarrow> digitsValue (take 2 (drop 5 s));
          d \<leftarrow> digitsValue (drop 8 s);
          day \<leftarrow> makeDay y m d;
          Some (day * msPerDay)
        }
      else None)"

definition parseIsoTime :: "string \<Rightarrow> int option" where
  "parseIsoTime s =
     (if length s = 14 \<and> s ! 0 = CHR ''T'' \<and> s ! 3 = CHR '':'' \<and> s ! 6 = CHR '':'' \<and>
         s ! 9 = CHR ''.'' \<and> s ! 13 = CHR ''Z'' then
        do {
          h \<leftarrow> digitsValue (take 2 (drop 1 s));
          mi \<leftarrow> digitsValue (take 2 (drop 4 s));
          sec \<leftarrow> digitsValue (take 2 (drop 7 s));
          ms \<leftarrow> digitsValue (take 3 (drop 10 s));
          if h \<le> 23 \<and> mi \<le> 59 \<and> sec \<le> 59 then Some (h * 3600000 + mi * 60000 + sec * 1000 + ms)
          else None
        }
      else None)"

fun indexOf :: "'a \<Rightarrow> 'a list \<Rightarrow> nat option" where
  "indexOf x [] = None"
| "indexOf x (y # ys) = (if x = y then Some 0 else map_option Suc (indexOf x ys))"

fun words :: "string \<Rightarrow> string list" where
  "words [] = [[]]"
| "words (c # cs) = (if c = CHR '' '' then [] # words cs else (case words cs of w # ws \<Rightarrow> (c # w) # ws | [] \<Rightarrow> [[c]]))"

definition parseLegacyDate :: "string \<Rightarrow> int option" where
  "parseLegacyDate s =
     (case words s of
        [mon, dd, yyyy] \<Rightarrow>
          do {
            i \<leftarrow> indexOf mon monthNames;
            d \<leftarrow> digitsValue dd;
            y \<leftarrow> (if length yyyy = 4 then digitsValue yyyy else None);
            day \<leftarrow> makeDay y (int i + 1) d;
            Some (day * msPerDay)
          }
      | _ \<Rightarrow> None)"

definition exampleParse :: "string \<Rightarrow> number" where
  "exampleParse s =
     (if length s = 10 \<and> s ! 4 = CHR ''-'' then parseIsoDate s
      else if length s = 24 \<and> s ! 10 = CHR ''T'' then
        do { day \<leftarrow> parseIsoDate (take 10 s); time \<leftarrow> parseIsoTime (drop 10 s); Some (day + time) }
      else parseLegacyDate s)"

definition utc :: environment where
  "utc = \<lparr>dateParse = exampleParse, localTZA = (\<lambda>t. 0)\<rparr>"

section \<open>Labels\<close>

text \<open>
  \<^verbatim>\<open>tickFormatter(label, max)\<close> of App.tsx cuts a label longer than \<open>max\<close> and appends the
  one-character ellipsis U+2026, which stands here as the single code unit 0x85.
\<close>

definition ellipsis :: string where
  "ellipsis = [CHR 0x85]"

definition tickFormatter :: "string \<Rightarrow> nat \<Rightarrow> string" where
  "tickFormatter label mx =
     (if label = [] then []
      else if length label > mx then take mx label @ ellipsis
      else label)"

section \<open>Reward histogram\<close>

record rewardBucket =
  range_bucket :: string
  count_bucket :: nat

record rewardRow =
  range_row :: string
  Jobs_row :: nat

definition initialBuckets :: "rewardBucket list" where
  "initialBuckets =
     [\<lparr>range_bucket = ''0'', count_bucket = 0\<rparr>,
      \<lparr>range_bucket = ''1-10K'', count_bucket = 0\<rparr>,
      \<lparr>range_bucket = ''10K-50K'', count_bucket = 0\<rparr>,
      \<lparr>range_bucket = ''50K-100K'', count_bucket = 0\<rparr>,
      \<lparr>range_bucket = ''100K-500K'', count_bucket = 0\<rparr>,
      \<lparr>range_bucket = ''500K+'', count_bucket = 0\<rparr>]"

text \<open>\<^verbatim>\<open>buckets[i].count += 1\<close>: the indices the code uses are the literals 0 to 5.\<close>

definition increment :: "rewardBucket list \<Rightarrow> nat \<Rightarrow> rewardBucket list" where
  "increment buckets i = buckets[i := (buckets ! i)\<lparr>count_bucket := count_bucket (buckets ! i) + 1\<rparr>]"

text \<open>The body of \<^verbatim>\<open>jobs.forEach\<close>, the same in both variants.\<close>

definition countReward :: "rewardBucket list \<Rightarrow> Job \<Rightarrow> rewardBucket list" where
  "countReward buckets job =
     (if reward job = 0 then increment buckets 0
      else if reward job \<le> 10000 then increment buckets 1
      else if reward job \<le> 50000 then increment buckets 2
      else if reward job \<le> 100000 then increment buckets 3
      else if reward job \<le> 500000 then increment buckets 4
      else increment buckets 5)"

text \<open>The recharts variant renders the buckets themselves.\<close>

definition rewardBuckets_recharts :: "Job list \<Rightarrow> rewardBucket list" where
  "rewardBuckets_recharts jobs = foldl countReward initialBuckets jobs"

text \<open>App.tsx maps each bucket to a row, its label through \<open>tickFormatter\<close>.\<close>

definition rewardBuckets :: "Job list \<Rightarrow> rewardRow list" where
  "rewardBuckets jobs =
     map (\<lambda>bucket. \<lparr>range_row = tickFormatter (range_bucket bucket) 10, Jobs_row = count_bucket bucket\<rparr>)
       (foldl countReward initialBuckets jobs)"

definition bucketLabels :: "string list" where
  "bucketLabels = [''0'', ''1-10K'', ''10K-50K'', ''50K-100K'', ''100K-500K'', ''500K+'']"

text \<open>The counts the six buckets should hold, by the interval each reward falls in.\<close>

definition bucketCounts :: "Job list \<Rightarrow> nat list" where
  "bucketCounts jobs =
     [length (filter (\<lambda>j. reward j = 0) jobs),
      length (filter (\<lambda>j. reward j \<noteq> 0 \<and> reward j \<le> 10000) jobs),
      length (filter (\<lambda>j. 10000 < reward j \<and> reward j \<le> 50000) jobs),
      length (filter (\<lambda>j. 50000 < reward j \<and> reward j \<le> 100000) jobs),
      length (filter (\<lambda>j. 100000 < reward j \<and> reward j \<le> 500000) jobs),
      length (filter (\<lambda>j. 500000 < reward j) jobs)]"

text \<open>A job with a given reward, for examples.\<close>

definition rewarded :: "int \<Rightarrow> Job" where
  "rewarded r =
     \<lparr>id_job = ''j'', title = ''t'', reward = r, status = ''open'', type_job = None,
      created_at_job = ''2026-01-05T10:00:00.000Z''\<rparr>"

section \<open>Agents over time\<close>

subsection \<open>App.tsx\<close>

record dayBucket =
  label_bucket :: string
  count_day :: nat

record dayPoint =
  date_point :: string
  count_point :: nat
  cumulative_point :: nat
  key_point :: string

text \<open>
  The body of \<^verbatim>\<open>agents.forEach\<close>. The \<^verbatim>\<open>Map\<close> is the list of its entries in insertion
  order; an agent whose date is invalid is skipped.
\<close>

definition addAgent :: "environment \<Rightarrow> (string \<times> dayBucket) list \<Rightarrow> Agent \<Rightarrow> (string \<times> dayBucket) list" where
  "addAgent env buckets a =
     (case dateParse env (created_at_agent a) of
        None \<Rightarrow> buckets
      | Some createdAt \<Rightarrow>
          let key = take 10 (toISOString createdAt);
              label = toLocaleDateString env (Some createdAt)
          in case map_of buckets key of
               Some existing \<Rightarrow> update key (existing\<lparr>count_day := count_day existing + 1\<rparr>) buckets
             | None \<Rightarrow> update key \<lparr>label_bucket = tickFormatter label 9, count_day = 1\<rparr> buckets)"

text \<open>\<^verbatim>\<open>sorted.map\<close> with the running \<^verbatim>\<open>cumulative\<close>.\<close>

fun accumulate :: "nat \<Rightarrow> (string \<times> dayBucket) list \<Rightarrow> dayPoint list" where
  "accumulate cumulative [] = []"
| "accumulate cumulative ((key, v) # rest) =
     \<lparr>date_point = label_bucket v, count_point = count_day v,
      cumulative_point = cumulative + count_day v, key_point = key\<rparr>
     # accumulate (cumulative + count_day v) rest"

definition agentsOverTime :: "environment \<Rightarrow> Agent list \<Rightarrow> dayPoint list" where
  "agentsOverTime env agents =
     (let buckets = foldl (addAgent env) [] agents;
          sorted = arraySort (\<lambda>a b. Some (localeCompare (fst a) (fst b))) buckets
      in accumulate 0 sorted)"

subsection \<open>The recharts variant\<close>

text \<open>
  \<^verbatim>\<open>agentsByDate\<close> tallies into a plain object under the label \<^verbatim>\<open>Jan 5\<close>, which has no
  year; the entries are sorted by the date the label denotes in 2026.
\<close>

record datePoint =
  date_r :: string
  count_r :: tally
  cumulative_r :: tally

definition agentsByDate :: "environment \<Rightarrow> Agent list \<Rightarrow> jsobject" where
  "agentsByDate env agents =
     foldl (\<lambda>acc a. countKey acc (toLocaleDateString env (dateParse env (created_at_agent a)))) [] agents"

definition sortedDates :: "environment \<Rightarrow> Agent list \<Rightarrow> (string \<times> tally) list" where
  "sortedDates env agents =
     arraySort (\<lambda>a b. minus_number (dateParse env (fst a @ '' 2026'')) (dateParse env (fst b @ '' 2026'')))
       (entries (agentsByDate env agents))"

fun pushPoints :: "tally \<Rightarrow> (string \<times> tally) list \<Rightarrow> datePoint list" where
  "pushPoints cumulative [] = []"
| "pushPoints cumulative ((date, c) # rest) =
     \<lparr>date_r = date, count_r = c, cumulative_r = plus_tally cumulative c\<rparr>
     # pushPoints (plus_tally cumulative c) rest"

definition agentsOverTime_recharts :: "environment \<Rightarrow> Agent list \<Rightarrow> datePoint list" where
  "agentsOverTime_recharts env agents = pushPoints (Count 0) (sortedDates env agents)"

subsection \<open>Valid dates and counts\<close>

text \<open>An agent whose timestamp the environment reads a date from.\<close>

definition validDate :: "environment \<Rightarrow> Agent \<Rightarrow> bool" where
  "validDate env a = (dateParse env (created_at_agent a) \<noteq> None)"

text \<open>The number of agents counted in a list of day buckets.\<close>

definition counted :: "(string \<times> dayBucket) list \<Rightarrow> nat" where
  "counted buckets = sum_list (map (\<lambda>p. count_day (snd p)) buckets)"

definition createdAt :: "string \<Rightarrow> Agent" where
  "createdAt s =
     \<lparr>id_agent = ''a'', name_agent = ''a'', jobs_completed = 0, jobs_posted = 0, reputation = 0,
      onChainBalance = Some ''0'', created_at_agent = s, specialties = []\<rparr>"

section \<open>Jobs by type\<close>






subsection \<open>Types and their counts\<close>






definition job :: "string option \<Rightarrow> Job" where
  "job t = \<lparr>id_job = ''j'', title = ''t'', reward = 0, status = ''open'', type_job = t,
            created_at_job = ''2026-01-05T10:00:00.000Z''\<rparr>"



section \<open>Leaderboard\<close>

text \<open>The state \<^verbatim>\<open>leaderboardSort\<close>: \<^verbatim>\<open>'balance' | 'jobs' | 'reputation'\<close>.\<close>

datatype sortKey = Balance | Jobs | Reputation

text \<open>
  The comparator of \<^verbatim>\<open>topAgents\<close>. App.tsx calls \<^verbatim>\<open>parseInt(s, 10)\<close>, the recharts variant
  \<^verbatim>\<open>parseInt(s)\<close>; \<open>radix\<close> is 10 or 0.
\<close>

definition compareAgents :: "nat \<Rightarrow> sortKey \<Rightarrow> Agent \<Rightarrow> Agent \<Rightarrow> number" where
  "compareAgents radix leaderboardSort a b =
     (if leaderboardSort = Jobs then Some (jobs_completed b - jobs_completed a)
      else if leaderboardSort = Reputation then Some (reputation b - reputation a)
      else
        let balA = parseInt (orElse (onChainBalance a) ''0'') radix;
            balB = parseInt (orElse (onChainBalance b) ''0'') radix
        in minus_number balB balA)"

definition topAgents :: "sortKey \<Rightarrow> Agent list \<Rightarrow> Agent list" where
  "topAgents leaderboardSort agents = slice0 10 (arraySort (compareAgents 10 leaderboardSort) agents)"

definition topAgents_recharts :: "sortKey \<Rightarrow> Agent list \<Rightarrow> Agent list" where
  "topAgents_recharts leaderboardSort agents = slice0 10 (arraySort (compareAgents 0 leaderboardSort) agents)"

subsection \<open>The ranking the specification describes\<close>




text \<open>Agents for examples: only the fields the leaderboard reads differ.\<close>

definition agent :: "string \<Rightarrow> int \<Rightarrow> int \<Rightarrow> string \<Rightarrow> Agent" where
  "agent n completed rep bal =
     \<lparr>id_agent = n, name_agent = n, jobs_completed = completed, jobs_posted = 0,
      reputation = rep, onChainBalance = Some bal, created_at_agent = ''2026-01-05T10:00:00.000Z'',
      specialties = []\<rparr>"

text \<open>Agents whose balance is non-numeric, numeric, zero and empty.\<close>

definition agentX :: Agent where "agentX = agent ''X'' 1 1 ''abc''"

definition agentY :: Agent where "agentY = agent ''Y'' 1 1 ''5''"

definition agentZero :: Agent where "agentZero = agent ''Z'' 1 1 ''0''"

definition agentEmpty :: Agent where "agentEmpty = agent ''E'' 1 1 []"

subsection \<open>The leaderboard on a store\<close>

text \<open>
  \<^verbatim>\<open>[...agents].sort(compare).slice(0, 10)\<close> with the arrays in a store: a reference is an
  index into the list of arrays. The spread allocates a copy, \<^verbatim>\<open>sort\<close> sorts the array it
  is called on in place and returns it, \<^verbatim>\<open>slice\<close> allocates the result.
\<close>

type_synonym 'a store = "'a list list"

definition spread :: "nat \<Rightarrow> 'a store \<Rightarrow> nat \<times> 'a store" where
  "spread r st = (length st, st @ [st ! r])"

definition sortInPlace :: "('a \<Rightarrow> 'a \<Rightarrow> number) \<Rightarrow> nat \<Rightarrow> 'a store \<Rightarrow> nat \<times> 'a store" where
  "sortInPlace comparefn r st = (r, st[r := arraySort comparefn (st ! r)])"

definition sliceNew :: "nat \<Rightarrow> nat \<Rightarrow> 'a store \<Rightarrow> nat \<times> 'a store" where
  "sliceNew n r st = (length st, st @ [slice0 n (st ! r)])"

definition topAgents_store :: "nat \<Rightarrow> sortKey \<Rightarrow> nat \<Rightarrow> Agent store \<Rightarrow> nat \<times> Agent store" where
  "topAgents_store radix leaderboardSort agentsRef st =
     (let (copy, st1) = spread agentsRef st;
          (sorted, st2) = sortInPlace (compareAgents radix leaderboardSort) copy st1
      in sliceNew 10 sorted st2)"

section \<open>Activity feed\<close>

text \<open>App.tsx sorts a copy by time, newest first, and keeps twelve.\<close>

definition compareTimestamps :: "environment \<Rightarrow> ActivityItem \<Rightarrow> ActivityItem \<Rightarrow> number" where
  "compareTimestamps env a b = minus_number (dateParse env (timestamp b)) (dateParse env (timestamp a))"

definition activityItems :: "environment \<Rightarrow> ActivityItem list \<Rightarrow> ActivityItem list" where
  "activityItems env activity = slice0 12 (arraySort (compareTimestamps env) activity)"

text \<open>The recharts variant renders \<^verbatim>\<open>activity.slice(0, 15)\<close>, in the order received.\<close>

definition activityItems_recharts :: "ActivityItem list \<Rightarrow> ActivityItem list" where
  "activityItems_recharts activity = slice0 15 activity"

text \<open>The time of an item, for items whose timestamp is a date.\<close>

definition timeOf :: "environment \<Rightarrow> ActivityItem \<Rightarrow> int" where
  "timeOf env a = (case dateParse env (timestamp a) of None \<Rightarrow> 0 | Some t \<Rightarrow> t)"

definition item :: "string \<Rightarrow> string \<Rightarrow> ActivityItem" where
  "item i ts = \<lparr>id_item = i, type_item = ''job_posted'', agent_name = ''a'', job_title = None, timestamp = ts\<rparr>"

section \<open>Completion rate\<close>

text \<open>
  The result of a division of two integers as JavaScript computes it, with the real
  quotient standing for its nearest number: dividing zero by zero is NaN, dividing another
  number by zero an infinity.
\<close>

datatype quotient = Num real | NaN | PosInfinity | NegInfinity

definition dividedBy :: "int \<Rightarrow> int \<Rightarrow> quotient" where
  "dividedBy a b =
     (if b \<noteq> 0 then Num (real_of_int a / real_of_int b)
      else if a = 0 then NaN else if 0 < a then PosInfinity else NegInfinity)"

definition multipliedBy :: "quotient \<Rightarrow> real \<Rightarrow> quotient" where
  "multipliedBy q c = (case q of Num r \<Rightarrow> Num (r * c) | NaN \<Rightarrow> NaN | PosInfinity \<Rightarrow> PosInfinity | NegInfinity \<Rightarrow> NegInfinity)"

text \<open>
  \<^verbatim>\<open>x.toFixed(1)\<close>: one digit after the point, rounded half up in magnitude (below
  \<open>10^21\<close>, which percentages of counts stay under).
\<close>

definition toFixed1 :: "quotient \<Rightarrow> string" where
  "toFixed1 q =
     (case q of
        NaN \<Rightarrow> ''NaN''
      | PosInfinity \<Rightarrow> ''Infinity''
      | NegInfinity \<Rightarrow> ''-Infinity''
      | Num r \<Rightarrow>
          let n = nat \<lfloor>\<bar>r\<bar> * 10 + 1 / 2\<rfloor>
          in (if r < 0 then ''-'' else []) @ digitsOf (n div 10) @ ''.'' @ digitsOf (n mod 10))"

text \<open>App.tsx: \<^verbatim>\<open>totalJobs > 0 ? (completedJobs / totalJobs) * 100 : 0\<close>, the counts 0 without stats.\<close>

definition completionRateValue :: "DashboardStats option \<Rightarrow> quotient" where
  "completionRateValue stats =
     (let totalJobs' = (case stats of None \<Rightarrow> 0 | Some s \<Rightarrow> totalJobs s);
          completedJobs' = (case stats of None \<Rightarrow> 0 | Some s \<Rightarrow> completedJobs s)
      in if 0 < totalJobs' then multipliedBy (dividedBy completedJobs' totalJobs') 100 else Num 0)"

text \<open>
  The recharts variant:
  \<^verbatim>\<open>stats ? ((stats.completedJobs / stats.totalJobs) * 100).toFixed(1) : '0'\<close>.
\<close>

definition completionRate_recharts :: "DashboardStats option \<Rightarrow> string" where
  "completionRate_recharts stats =
     (case stats of
        None \<Rightarrow> ''0''
      | Some s \<Rightarrow> toFixed1 (multipliedBy (dividedBy (completedJobs s) (totalJobs s)) 100))"

definition statsOf :: "int \<Rightarrow> int \<Rightarrow> DashboardStats" where
  "statsOf n c =
     \<lparr>totalAgents = 0, totalJobs = n, openJobs = 0, claimedJobs = 0, completedJobs = c,
      totalRewardsPaid = 0, totalRewardsEscrowed = 0\<rparr>"

section \<open>The component: state, polling, rendering\<close>

text \<open>
  The state hooks of \<^verbatim>\<open>App\<close>, the same in both variants. The field names carry the suffix
  \<open>_st\<close>.
\<close>

record state =
  stats_st :: "DashboardStats option"
  agents_st :: "Agent list"
  jobs_st :: "Job list"
  activity_st :: "ActivityItem list"
  loading_st :: bool
  error_st :: "string option"
  leaderboardSort_st :: sortKey


subsection \<open>What a fetch can come to\<close>

text \<open>
  A value thrown or rejected with: an \<^verbatim>\<open>Error\<close> with its message, or something else. A
  response has a status and a body that \<^verbatim>\<open>json()\<close> parses or rejects. A fetch settles, at
  some time, rejected or fulfilled with a response.
\<close>

datatype thrown = Error string | NotAnError

record 'a response =
  status_response :: nat
  json :: "thrown + 'a"

definition ok :: "'a response \<Rightarrow> bool" where
  "ok res = (200 \<le> status_response res \<and> status_response res \<le> 299)"

datatype 'a settled = Rejected thrown | Fulfilled "'a response"

record 'a fetched =
  outcome :: "'a settled"
  settledAt :: nat

record dashboardData =
  stats_data :: "DashboardStats option"
  activity_data :: "ActivityItem list option"

record poll =
  dashFetch :: "dashboardData fetched"
  agentsFetch :: "Agent list fetched"
  jobsFetch :: "Job list fetched"

text \<open>
  \<^verbatim>\<open>Promise.all\<close> is fulfilled when all three are, and rejected with the reason of the
  promise that rejects first in time.
\<close>

definition rejection :: "'a fetched \<Rightarrow> (nat \<times> thrown) option" where
  "rejection f = (case outcome f of Rejected e \<Rightarrow> Some (settledAt f, e) | Fulfilled res \<Rightarrow> None)"

fun earliest :: "(nat \<times> thrown) option list \<Rightarrow> (nat \<times> thrown) option" where
  "earliest [] = None"
| "earliest (None # rs) = earliest rs"
| "earliest (Some (t, e) # rs) =
     (case earliest rs of
        None \<Rightarrow> Some (t, e)
      | Some (t', e') \<Rightarrow> if t' < t then Some (t', e') else Some (t, e))"

definition promiseAll ::
  "poll \<Rightarrow> thrown + (dashboardData response \<times> Agent list response \<times> Job list response)" where
  "promiseAll p =
     (case (outcome (dashFetch p), outcome (agentsFetch p), outcome (jobsFetch p)) of
        (Fulfilled dashRes, Fulfilled agentsRes, Fulfilled jobsRes) \<Rightarrow> Inr (dashRes, agentsRes, jobsRes)
      | _ \<Rightarrow>
          (case earliest [rejection (dashFetch p), rejection (agentsFetch p), rejection (jobsFetch p)] of
             Some (t, e) \<Rightarrow> Inl e
           | None \<Rightarrow> Inl NotAnError))"

subsection \<open>fetchData\<close>

text \<open>The \<^verbatim>\<open>catch\<close> block: \<^verbatim>\<open>e instanceof Error ? e.message : 'Unknown error'\<close>.\<close>

definition messageOf :: "thrown \<Rightarrow> string" where
  "messageOf e = (case e of Error m \<Rightarrow> m | NotAnError \<Rightarrow> ''Unknown error'')"

definition caught :: "thrown \<Rightarrow> state \<Rightarrow> state" where
  "caught e s = s\<lparr>error_st := Some (messageOf e), loading_st := False\<rparr>"

text \<open>One run of \<^verbatim>\<open>fetchData\<close>, given what the three fetches come to.\<close>

definition fetchData :: "poll \<Rightarrow> state \<Rightarrow> state" where
  "fetchData p s =
     (case promiseAll p of
        Inl e \<Rightarrow> caught e s
      | Inr (dashRes, agentsRes, jobsRes) \<Rightarrow>
          if \<not> ok dashRes \<or> \<not> ok agentsRes \<or> \<not> ok jobsRes then caught (Error ''Failed to fetch data'') s
          else
            (case json dashRes of
               Inl e \<Rightarrow> caught e s
             | Inr dashData \<Rightarrow>
                 (case json agentsRes of
                    Inl e \<Rightarrow> caught e s
                  | Inr agentsData \<Rightarrow>
                      (case json jobsRes of
                         Inl e \<Rightarrow> caught e s
                       | Inr jobsData \<Rightarrow>
                           s\<lparr>stats_st := stats_data dashData,
                             activity_st := (case activity_data dashData of None \<Rightarrow> [] | Some a \<Rightarrow> a),
                             agents_st := agentsData,
                             jobs_st := jobsData,
                             loading_st := False\<rparr>))))"

subsection \<open>Rendering and events\<close>



text \<open>
  The effect with the empty dependency list runs \<^verbatim>\<open>fetchData\<close> on mount and on every tick
  of the 30 second timer, and at no other time; a click on a leaderboard button calls
  \<^verbatim>\<open>setLeaderboardSort\<close>. An event gives the next state and the URLs it fetches.
\<close>

datatype event = Mount | Tick | Settled poll | SetLeaderboardSort sortKey

definition endpoints :: "string list" where
  "endpoints =
     [''https://www.openwork.bot/api/dashboard'', ''https://www.openwork.bot/api/agents'',
      ''https://www.openwork.bot/api/jobs'']"

definition handle :: "event \<Rightarrow> state \<Rightarrow> state \<times> string list" where
  "handle ev s =
     (case ev of
        Mount \<Rightarrow> (s, endpoints)
      | Tick \<Rightarrow> (s, endpoints)
      | Settled p \<Rightarrow> (fetchData p s, [])
      | SetLeaderboardSort k \<Rightarrow> (s\<lparr>leaderboardSort_st := k\<rparr>, []))"

subsection \<open>Failed fetches\<close>









section \<open>Proofs: reward histogram\<close>

lemma countReward_shape:
  assumes "length bs = 6"
  shows "map range_bucket (countReward bs j) = map range_bucket bs"
    and "length (countReward bs j) = 6"
  using assms by (simp_all add: countReward_def increment_def map_update list_eq_iff_nth_eq nth_list_update)

lemma foldl_countReward_shape:
  "length bs = 6 \<Longrightarrow>
     map range_bucket (foldl countReward bs jobs) = map range_bucket bs \<and>
     length (foldl countReward bs jobs) = 6"
  by (induction jobs arbitrary: bs) (simp_all add: countReward_shape)

lemma six_cases:
  assumes "length (bs :: 'a list) = 6"
  obtains a b c d e f where "bs = [a, b, c, d, e, f]"
proof -
  from assms obtain a b c d e f where "bs = [a, b, c, d, e, f]"
    by (auto simp: length_Suc_conv eval_nat_numeral)
  then show ?thesis using that by blast
qed

lemma countReward_counts:
  assumes "length bs = 6"
  shows "map count_bucket (countReward bs j) = map2 (+) (map count_bucket bs) (bucketCounts [j])"
proof -
  from assms obtain a b c d e f where "bs = [a, b, c, d, e, f]" by (rule six_cases)
  then show ?thesis
    by (simp add: countReward_def increment_def bucketCounts_def)
qed

lemma bucketCounts_Cons:
  "bucketCounts (j # jobs) = map2 (+) (bucketCounts [j]) (bucketCounts jobs)"
  by (simp add: bucketCounts_def)

lemma foldl_countReward_counts:
  "length bs = 6 \<Longrightarrow>
     map count_bucket (foldl countReward bs jobs) = map2 (+) (map count_bucket bs) (bucketCounts jobs)"
proof (induction jobs arbitrary: bs)
  case Nil
  from Nil obtain a b c d e f where "bs = [a, b, c, d, e, f]" by (rule six_cases)
  then show ?case by (simp add: bucketCounts_def)
next
  case (Cons j jobs)
  from Cons.prems obtain a b c d e f where bs: "bs = [a, b, c, d, e, f]" by (rule six_cases)
  have len: "length (countReward bs j) = 6" using Cons.prems by (rule countReward_shape)
  have "map count_bucket (foldl countReward (countReward bs j) jobs)
      = map2 (+) (map2 (+) (map count_bucket bs) (bucketCounts [j])) (bucketCounts jobs)"
    using Cons.IH [OF len] countReward_counts [OF Cons.prems] by simp
  also have "\<dots> = map2 (+) (map count_bucket bs) (bucketCounts (j # jobs))"
    by (simp add: bs bucketCounts_def)
  finally show ?case by simp
qed

lemma sum_bucketCounts: "sum_list (bucketCounts jobs) = length jobs"
  by (induction jobs) (auto simp: bucketCounts_def)

lemma rewardBuckets_recharts_counts:
  "map count_bucket (rewardBuckets_recharts jobs) = bucketCounts jobs"
proof -
  have "length initialBuckets = 6" by (simp add: initialBuckets_def)
  from foldl_countReward_counts [OF this, of jobs]
  show ?thesis
    by (simp add: rewardBuckets_recharts_def initialBuckets_def bucketCounts_def)
qed

lemma rewardBuckets_recharts_labels:
  "map range_bucket (rewardBuckets_recharts jobs) = bucketLabels"
proof -
  have "length initialBuckets = 6" by (simp add: initialBuckets_def)
  from foldl_countReward_shape [OF this, of jobs]
  show ?thesis
    by (simp add: rewardBuckets_recharts_def initialBuckets_def bucketLabels_def)
qed

lemma tickFormatter_short: "label \<noteq> [] \<Longrightarrow> length label \<le> mx \<Longrightarrow> tickFormatter label mx = label"
  by (simp add: tickFormatter_def)

lemma rewardBuckets_rows:
  "map range_row (rewardBuckets jobs) = map (\<lambda>l. tickFormatter l 10) (map range_bucket (rewardBuckets_recharts jobs))"
  "map Jobs_row (rewardBuckets jobs) = map count_bucket (rewardBuckets_recharts jobs)"
  by (simp_all add: rewardBuckets_def rewardBuckets_recharts_def comp_def)

lemma rewardBuckets_examples:
  "map Jobs_row (rewardBuckets [rewarded 0, rewarded 10000, rewarded 10001, rewarded 500000, rewarded 500001])
     = [1, 1, 1, 0, 1, 1]"
  "map count_bucket (rewardBuckets_recharts [rewarded 0, rewarded 10000, rewarded 10001, rewarded 500000, rewarded 500001])
     = [1, 1, 1, 0, 1, 1]"
  by (simp_all add: rewardBuckets_rows rewardBuckets_recharts_counts bucketCounts_def rewarded_def)

text \<open>
  C1. For every list of jobs, both variants return the six buckets in their fixed order,
  also when a count is zero; the bucket counts are the numbers of jobs whose reward lies in
  the bucket's interval (0; nonzero up to 10000; above 10000 up to 50000; above 50000 up to
  100000; above 100000 up to 500000; above 500000), so each job is counted in exactly one
  bucket, and the counts sum to the number of jobs. Rewards 0, 10000, 10001, 500000 and
  500001 fall in the buckets \<^verbatim>\<open>0\<close>, \<^verbatim>\<open>1-10K\<close>, \<^verbatim>\<open>10K-50K\<close>, \<^verbatim>\<open>100K-500K\<close> and \<^verbatim>\<open>500K+\<close>.
\<close>

theorem rewardBuckets_histogram:
  "map range_row (rewardBuckets jobs) = bucketLabels \<and>
   map Jobs_row (rewardBuckets jobs) = bucketCounts jobs \<and>
   sum_list (map Jobs_row (rewardBuckets jobs)) = length jobs \<and>
   map range_bucket (rewardBuckets_recharts jobs) = bucketLabels \<and>
   map count_bucket (rewardBuckets_recharts jobs) = bucketCounts jobs \<and>
   sum_list (map count_bucket (rewardBuckets_recharts jobs)) = length jobs \<and>
   map Jobs_row (rewardBuckets [rewarded 0, rewarded 10000, rewarded 10001, rewarded 500000, rewarded 500001])
     = [1, 1, 1, 0, 1, 1] \<and>
   map count_bucket (rewardBuckets_recharts [rewarded 0, rewarded 10000, rewarded 10001, rewarded 500000, rewarded 500001])
     = [1, 1, 1, 0, 1, 1]"
proof -
  have "map (\<lambda>l. tickFormatter l 10) bucketLabels = bucketLabels"
    by (simp add: bucketLabels_def tickFormatter_def)
  then have "map range_row (rewardBuckets jobs) = bucketLabels \<and>
     map Jobs_row (rewardBuckets jobs) = bucketCounts jobs \<and>
     sum_list (map Jobs_row (rewardBuckets jobs)) = length jobs \<and>
     map range_bucket (rewardBuckets_recharts jobs) = bucketLabels \<and>
     map count_bucket (rewardBuckets_recharts jobs) = bucketCounts jobs \<and>
     sum_list (map count_bucket (rewardBuckets_recharts jobs)) = length jobs"
    by (simp add: rewardBuckets_rows rewardBuckets_recharts_labels rewardBuckets_recharts_counts
        sum_bucketCounts)
  with rewardBuckets_examples show ?thesis by blast
qed

section \<open>Proofs: leaderboard\<close>


lemma insertSorted_insort_key:
  assumes "\<And>y. y \<in> set ys \<Longrightarrow> positive (comparefn x y) \<longleftrightarrow> f y < f x"
  shows "insertSorted comparefn x ys = insort_key f x (ys :: 'a list)"
  using assms by (induction ys) (auto simp: not_le)

lemma arraySort_sort_key:
  fixes f :: "'a \<Rightarrow> 'b :: linorder"
  assumes "\<And>x y. x \<in> set xs \<Longrightarrow> y \<in> set xs \<Longrightarrow> positive (comparefn x y) \<longleftrightarrow> f y < f x"
  shows "arraySort comparefn xs = sort_key f xs"
  using assms
proof (induction xs)
  case Nil
  show ?case by (simp add: arraySort_def)
next
  case (Cons x xs)
  have IH: "arraySort comparefn xs = sort_key f xs"
    using Cons.prems by (intro Cons.IH) simp_all
  have "insertSorted comparefn x (sort_key f xs) = insort_key f x (sort_key f xs)"
    using Cons.prems by (intro insertSorted_insort_key) simp_all
  with IH show ?case by (simp add: arraySort_def)
qed




lemma parse_examples:
  "parseInt ''abc'' 10 = None" "parseInt ''abc'' 0 = None"
  "parseInt ''5'' 10 = Some 5" "parseInt ''5'' 0 = Some 5"
  "parseInt ''0'' 10 = Some 0" "parseInt ''0'' 0 = Some 0"
  by (simp_all add: parseInt_def isWhiteSpace_def isRadixDigit_def digitValue_def mathInt_def Let_def)





text \<open>
  C4. An empty balance is ranked as 0: \<^verbatim>\<open>'' || '0'\<close> is \<^verbatim>\<open>'0'\<close>. A non-numeric balance is
  not: \<open>parseInt\<close> returns NaN, every comparison with that agent returns NaN, and the agent
  keeps its place. Agent X (balance \<^verbatim>\<open>"abc"\<close>) stays ahead of Y (balance 5), where Z
  (balance \<^verbatim>\<open>"0"\<close>) and E (empty balance) fall behind Y.
\<close>

theorem nonnumeric_balance_not_zero:
  "parseInt (orElse (onChainBalance agentX) ''0'') 10 = None \<and>
   parseInt (orElse (onChainBalance agentX) ''0'') 0 = None \<and>
   compareAgents 10 Balance agentX agentY = None \<and>
   compareAgents 10 Balance agentZero agentY = Some 5 \<and>
   compareAgents 10 Balance agentEmpty agentY = Some 5 \<and>
   topAgents Balance [agentX, agentY] = [agentX, agentY] \<and>
   topAgents Balance [agentZero, agentY] = [agentY, agentZero] \<and>
   topAgents Balance [agentEmpty, agentY] = [agentY, agentEmpty] \<and>
   topAgents_recharts Balance [agentX, agentY] = [agentX, agentY] \<and>
   topAgents_recharts Balance [agentZero, agentY] = [agentY, agentZero] \<and>
   topAgents_recharts Balance [agentEmpty, agentY] = [agentY, agentEmpty]"
  by (simp add: topAgents_def topAgents_recharts_def slice0_def arraySort_def compareAgents_def
      positive_def minus_number_def agentX_def agentY_def agentZero_def agentEmpty_def agent_def
      orElse_def parse_examples)

section \<open>Proofs: jobs by type\<close>


lemma keys_update:
  "map fst (update k v ps) = (if k \<in> fst ` set ps then map fst ps else map fst ps @ [k])"
  by (induction ps rule: update.induct) (auto simp: image_iff)

lemma set_update_subset: "set (update k v ps) \<subseteq> insert (k, v) (set ps)"
  by (induction ps rule: update.induct) auto

lemma distinct_update: "distinct (map fst ps) \<Longrightarrow> distinct (map fst (update k v ps))"
  by (simp add: keys_update)




















section \<open>Proofs: agents over time\<close>

lemma update_absent: "map_of ps k = None \<Longrightarrow> update k v ps = ps @ [(k, v)]"
  by (induction ps rule: update.induct) (auto split: if_splits)

lemma total_update_present:
  "map_of ps k = Some e \<Longrightarrow> counted (update k (e\<lparr>count_day := count_day e + 1\<rparr>) ps) = counted ps + 1"
proof (induction ps)
  case Nil
  then show ?case by simp
next
  case (Cons p ps)
  obtain k' v' where p: "p = (k', v')" by (cases p)
  show ?case
  proof (cases "k' = k")
    case True
    with Cons.prems p show ?thesis by (simp add: counted_def)
  next
    case False
    with Cons.prems p have "map_of ps k = Some e" by simp
    from Cons.IH [OF this] False p show ?thesis by (simp add: counted_def)
  qed
qed

lemma addAgent_total:
  "counted (addAgent env buckets a) = counted buckets + (if validDate env a then 1 else 0)"
proof (cases "dateParse env (created_at_agent a)")
  case None
  then show ?thesis by (simp add: addAgent_def validDate_def)
next
  case (Some t)
  show ?thesis
  proof (cases "map_of buckets (take 10 (toISOString t))")
    case None
    with Some show ?thesis
      by (simp add: addAgent_def validDate_def Let_def update_absent counted_def)
  next
    case (Some e)
    with \<open>dateParse env (created_at_agent a) = Some t\<close> show ?thesis
      using total_update_present [OF Some]
      by (simp add: addAgent_def validDate_def Let_def)
  qed
qed

lemma addAgent_distinct:
  "distinct (map fst buckets) \<Longrightarrow> distinct (map fst (addAgent env buckets a))"
  by (auto simp: addAgent_def Let_def distinct_update split: option.splits)

lemma foldl_addAgent:
  "distinct (map fst buckets) \<Longrightarrow>
   distinct (map fst (foldl (addAgent env) buckets agents)) \<and>
   counted (foldl (addAgent env) buckets agents) = counted buckets + length (filter (validDate env) agents)"
proof (induction agents arbitrary: buckets)
  case Nil
  then show ?case by simp
next
  case (Cons a agents)
  from Cons.prems have "distinct (map fst (addAgent env buckets a))" by (rule addAgent_distinct)
  from Cons.IH [OF this] show ?case by (simp add: addAgent_total)
qed

lemma localeCompare_order:
  "positive (Some (localeCompare (fst x) (fst y))) \<longleftrightarrow> fst y < fst x"
  by (auto simp: positive_def localeCompare_def)

lemma sorted_buckets:
  "arraySort (\<lambda>a b. Some (localeCompare (fst a) (fst b))) buckets = sort_key fst buckets"
  by (rule arraySort_sort_key) (rule localeCompare_order)

lemma accumulate_props:
  "sorted (map cumulative_point (accumulate c xs)) \<and>
   (\<forall>p\<in>set (accumulate c xs). c \<le> cumulative_point p) \<and>
   last (c # map cumulative_point (accumulate c xs)) = c + counted xs \<and>
   map key_point (accumulate c xs) = map fst xs \<and>
   map count_point (accumulate c xs) = map (\<lambda>p. count_day (snd p)) xs"
proof (induction c xs rule: accumulate.induct)
  case (1 c)
  show ?case by (simp add: counted_def)
next
  case (2 c key v rest)
  then show ?case by (fastforce simp: counted_def)
qed

lemma total_sort_key: "counted (sort_key f xs) = counted xs"
proof -
  have "mset (map (\<lambda>p. count_day (snd p)) (sort_key f xs)) = mset (map (\<lambda>p. count_day (snd p)) xs)"
    by simp
  then show ?thesis unfolding counted_def by (metis sum_mset_sum_list)
qed

lemma agentsOverTime_eq:
  "agentsOverTime env agents = accumulate 0 (sort_key fst (foldl (addAgent env) [] agents))"
  by (simp add: agentsOverTime_def sorted_buckets)

lemma total_zero_iff:
  assumes "\<forall>p\<in>set xs. 0 < count_day (snd p)"
  shows "counted xs = 0 \<longleftrightarrow> xs = []"
  using assms by (cases xs) (auto simp: counted_def)

lemma update_positive:
  assumes "\<forall>p\<in>set buckets. 0 < count_day (snd p)" "0 < count_day v"
  shows "\<forall>p\<in>set (update k v buckets). 0 < count_day (snd p)"
  using set_update_subset [of k v buckets] assms by auto

lemma addAgent_positive:
  assumes "\<forall>p\<in>set buckets. 0 < count_day (snd p)"
  shows "\<forall>p\<in>set (addAgent env buckets a). 0 < count_day (snd p)"
proof (cases "dateParse env (created_at_agent a)")
  case None
  with assms show ?thesis by (simp add: addAgent_def)
next
  case (Some t)
  show ?thesis
  proof (cases "map_of buckets (take 10 (toISOString t))")
    case None
    with Some show ?thesis
      using update_positive [OF assms, of "\<lparr>label_bucket = tickFormatter (toLocaleDateString env (Some t)) 9, count_day = 1\<rparr>"]
      by (simp add: addAgent_def Let_def)
  next
    case (Some e)
    with \<open>dateParse env (created_at_agent a) = Some t\<close> show ?thesis
      using update_positive [OF assms, of "e\<lparr>count_day := count_day e + 1\<rparr>"]
      by (simp add: addAgent_def Let_def)
  qed
qed

lemma foldl_addAgent_positive:
  "\<forall>p\<in>set buckets. 0 < count_day (snd p) \<Longrightarrow>
   \<forall>p\<in>set (foldl (addAgent env) buckets agents). 0 < count_day (snd p)"
proof (induction agents arbitrary: buckets)
  case Nil
  then show ?case by simp
next
  case (Cons a agents)
  from Cons.prems have "\<forall>p\<in>set (addAgent env buckets a). 0 < count_day (snd p)"
    by (rule addAgent_positive)
  from Cons.IH [OF this] show ?case by simp
qed

lemma agentsOverTime_facts:
  "sorted (map cumulative_point (agentsOverTime env agents))"
  "last (0 # map cumulative_point (agentsOverTime env agents)) = length (filter (validDate env) agents)"
  "sum_list (map count_point (agentsOverTime env agents)) = length (filter (validDate env) agents)"
  "agentsOverTime env agents = [] \<longleftrightarrow> filter (validDate env) agents = []"
  "sorted_wrt (<) (map key_point (agentsOverTime env agents))"
proof -
  let ?b = "foldl (addAgent env) [] agents"
  let ?s = "sort_key fst ?b"
  have f: "distinct (map fst ?b)" "counted ?b = length (filter (validDate env) agents)"
    using foldl_addAgent [of "[]" env agents] by (simp_all add: counted_def)
  have ts: "counted ?s = length (filter (validDate env) agents)"
    using f(2) by (simp add: total_sort_key)
  note acc = accumulate_props [of 0 ?s]
  show "sorted (map cumulative_point (agentsOverTime env agents))"
    unfolding agentsOverTime_eq using acc by blast
  show "last (0 # map cumulative_point (agentsOverTime env agents)) = length (filter (validDate env) agents)"
    unfolding agentsOverTime_eq using acc ts by simp
  show "sum_list (map count_point (agentsOverTime env agents)) = length (filter (validDate env) agents)"
    unfolding agentsOverTime_eq using acc ts by (simp add: counted_def)
  have pos: "\<forall>p\<in>set ?b. 0 < count_day (snd p)"
    by (rule foldl_addAgent_positive) simp
  have "agentsOverTime env agents = [] \<longleftrightarrow> ?s = []"
    unfolding agentsOverTime_eq using acc by (metis map_is_Nil_conv)
  also have "\<dots> \<longleftrightarrow> ?b = []" by (metis length_0_conv length_sort)
  also have "\<dots> \<longleftrightarrow> counted ?b = 0" using total_zero_iff [OF pos] by simp
  also have "\<dots> \<longleftrightarrow> filter (validDate env) agents = []" using f(2) by simp
  finally show "agentsOverTime env agents = [] \<longleftrightarrow> filter (validDate env) agents = []" .
  have "sorted (map fst ?s)" by simp
  moreover have "distinct (map fst ?s)"
    using f(1) by (metis distinct_map distinct_sort set_sort)
  ultimately show "sorted_wrt (<) (map key_point (agentsOverTime env agents))"
    unfolding agentsOverTime_eq using acc by (simp add: strict_sorted_iff)
qed

text \<open>
  App.tsx, for every environment and list of agents: agents with an invalid date are left
  out, the cumulative counts never decrease, the last one (0 for the empty sequence) is the
  number of agents with a valid date, the daily counts sum to that number, and the
  sequence is empty exactly when no agent has a valid date.
\<close>

theorem agentsOverTime_cumulative:
  "sorted (map cumulative_point (agentsOverTime env agents)) \<and>
   last (0 # map cumulative_point (agentsOverTime env agents)) = length (filter (validDate env) agents) \<and>
   sum_list (map count_point (agentsOverTime env agents)) = length (filter (validDate env) agents) \<and>
   (agentsOverTime env agents = [] \<longleftrightarrow> filter (validDate env) agents = [])"
  using agentsOverTime_facts [of env agents] by blast

text \<open>
  C2. The recharts variant does not leave out an agent whose timestamp is no date: its
  label is \<^verbatim>\<open>Invalid Date\<close>, and the agent is counted under that label. One such agent
  gives a sequence of one point, where App.tsx gives the empty sequence.
\<close>

theorem agentsOverTime_recharts_invalid_date:
  "dateParse utc ''garbage'' = None \<and>
   agentsOverTime_recharts utc [createdAt ''garbage''] =
     [\<lparr>date_r = ''Invalid Date'', count_r = Count 1, cumulative_r = Count 1\<rparr>] \<and>
   agentsOverTime utc [createdAt ''garbage''] = []"
  by code_simp

text \<open>
  C7. The recharts variant keys the days by a label without year and sorts the labels by
  the date they denote in 2026. An agent of 2025-12-31 and one of 2026-01-01 come out with
  January 1 first, and agents of 2025-03-07 and 2026-03-07 share one point. App.tsx, which
  keys by the ISO date, returns December 31 first.
\<close>

theorem agentsOverTime_recharts_across_years:
  "agentsOverTime_recharts utc
      [createdAt ''2025-12-31T08:00:00.000Z'', createdAt ''2026-01-01T08:00:00.000Z''] =
     [\<lparr>date_r = ''Jan 1'', count_r = Count 1, cumulative_r = Count 1\<rparr>,
      \<lparr>date_r = ''Dec 31'', count_r = Count 1, cumulative_r = Count 2\<rparr>] \<and>
   agentsOverTime_recharts utc
      [createdAt ''2025-03-07T08:00:00.000Z'', createdAt ''2026-03-07T08:00:00.000Z''] =
     [\<lparr>date_r = ''Mar 7'', count_r = Count 2, cumulative_r = Count 2\<rparr>] \<and>
   agentsOverTime utc
      [createdAt ''2025-12-31T08:00:00.000Z'', createdAt ''2026-01-01T08:00:00.000Z''] =
     [\<lparr>date_point = ''Dec 31'', count_point = 1, cumulative_point = 1, key_point = ''2025-12-31''\<rparr>,
      \<lparr>date_point = ''Jan 1'', count_point = 1, cumulative_point = 2, key_point = ''2026-01-01''\<rparr>]"
  by code_simp


section \<open>Proofs: activity feed\<close>

lemma compareTimestamps_order:
  assumes "dateParse env (timestamp a) \<noteq> None" "dateParse env (timestamp b) \<noteq> None"
  shows "positive (compareTimestamps env a b) \<longleftrightarrow> - timeOf env b < - timeOf env a"
  using assms by (auto simp: compareTimestamps_def minus_number_def positive_def timeOf_def)

lemma activityItems_sort_key:
  assumes "\<forall>a\<in>set activity. dateParse env (timestamp a) \<noteq> None"
  shows "activityItems env activity = take 12 (sort_key (\<lambda>a. - timeOf env a) activity)"
proof -
  have "arraySort (compareTimestamps env) activity = sort_key (\<lambda>a. - timeOf env a) activity"
    using assms by (intro arraySort_sort_key compareTimestamps_order) simp_all
  then show ?thesis by (simp add: activityItems_def slice0_def)
qed

lemma top_of_sorted:
  fixes f :: "'a \<Rightarrow> int"
  defines "L \<equiv> \<lambda>xs. sort_key (\<lambda>a. - f a) xs"
  shows "sorted_wrt (\<lambda>a b. f b \<le> f a) (take n (L xs))"
    "length (take n (L xs)) = min n (length xs)"
    "mset (take n (L xs)) \<subseteq># mset xs"
    "\<forall>a\<in>#(mset xs - mset (take n (L xs))). \<forall>b\<in>set (take n (L xs)). f a \<le> f b"
proof -
  have s: "sorted_wrt (\<lambda>a b. f b \<le> f a) (L xs)"
    unfolding L_def using sorted_sort_key [of "\<lambda>a. - f a" xs] by (simp add: sorted_wrt_map)
  show "sorted_wrt (\<lambda>a b. f b \<le> f a) (take n (L xs))"
    using s by (rule sorted_wrt_take)
  show "length (take n (L xs)) = min n (length xs)"
    by (simp add: L_def min.commute)
  have m: "mset xs = mset (take n (L xs)) + mset (drop n (L xs))"
    unfolding L_def by (metis append_take_drop_id mset_append mset_sort)
  show "mset (take n (L xs)) \<subseteq># mset xs"
    unfolding m by simp
  have "\<forall>b\<in>set (take n (L xs)). \<forall>a\<in>set (drop n (L xs)). f a \<le> f b"
    using s sorted_wrt_append [of "\<lambda>a b. f b \<le> f a" "take n (L xs)" "drop n (L xs)"] by simp
  moreover have "mset xs - mset (take n (L xs)) = mset (drop n (L xs))"
    unfolding m by simp
  ultimately show "\<forall>a\<in>#(mset xs - mset (take n (L xs))). \<forall>b\<in>set (take n (L xs)). f a \<le> f b"
    by auto
qed

text \<open>
  C6 (amended). App.tsx: for every list of activity items whose timestamps are all valid
  dates, the feed is the items in the stable sort by time, newest first, cut to the first
  twelve: it is sorted descending by time, has \<open>min 12 n\<close> items, all of them items of the
  input, and no item left out is newer than one shown. The recharts variant: for every list
  of activity items, the feed is the first fifteen items in the order received.
\<close>

theorem activityItems_recent:
  "((\<forall>a\<in>set activity. dateParse env (timestamp a) \<noteq> None) \<longrightarrow>
      activityItems env activity = take 12 (sort_key (\<lambda>a. - timeOf env a) activity) \<and>
      sorted_wrt (\<lambda>a b. timeOf env b \<le> timeOf env a) (activityItems env activity) \<and>
      length (activityItems env activity) = min 12 (length activity) \<and>
      mset (activityItems env activity) \<subseteq># mset activity \<and>
      (\<forall>a\<in>#(mset activity - mset (activityItems env activity)). \<forall>b\<in>set (activityItems env activity).
          timeOf env a \<le> timeOf env b)) \<and>
   activityItems_recharts activity = take 15 activity"
proof (intro conjI impI)
  assume h: "\<forall>a\<in>set activity. dateParse env (timestamp a) \<noteq> None"
  note eq = activityItems_sort_key [OF h]
  show "activityItems env activity = take 12 (sort_key (\<lambda>a. - timeOf env a) activity)" by (rule eq)
  show "sorted_wrt (\<lambda>a b. timeOf env b \<le> timeOf env a) (activityItems env activity)"
    unfolding eq by (rule top_of_sorted)
  show "length (activityItems env activity) = min 12 (length activity)"
    unfolding eq by (rule top_of_sorted)
  show "mset (activityItems env activity) \<subseteq># mset activity"
    unfolding eq by (rule top_of_sorted)
  show "\<forall>a\<in>#(mset activity - mset (activityItems env activity)). \<forall>b\<in>set (activityItems env activity).
          timeOf env a \<le> timeOf env b"
    unfolding eq by (rule top_of_sorted)
next
  show "activityItems_recharts activity = take 15 activity"
    by (simp add: activityItems_recharts_def slice0_def)
qed

lemma item_times:
  "dateParse utc (timestamp (item ''1'' ''2026-01-01T08:00:00.000Z'')) = Some 1767254400000"
  "dateParse utc (timestamp (item ''2'' ''2026-01-03T08:00:00.000Z'')) = Some 1767427200000"
  by code_simp+

text \<open>The theorem at two items, the older one received first.\<close>

theorem activityItems_recent_witness:
  "dateParse utc (timestamp (item ''1'' ''2026-01-01T08:00:00.000Z'')) \<noteq> None \<and>
   dateParse utc (timestamp (item ''2'' ''2026-01-03T08:00:00.000Z'')) \<noteq> None \<and>
   activityItems utc [item ''1'' ''2026-01-01T08:00:00.000Z'', item ''2'' ''2026-01-03T08:00:00.000Z''] =
     [item ''2'' ''2026-01-03T08:00:00.000Z'', item ''1'' ''2026-01-01T08:00:00.000Z''] \<and>
   activityItems_recharts [item ''1'' ''2026-01-01T08:00:00.000Z'', item ''2'' ''2026-01-03T08:00:00.000Z''] =
     [item ''1'' ''2026-01-01T08:00:00.000Z'', item ''2'' ''2026-01-03T08:00:00.000Z'']"
  using activityItems_recent [of "[item ''1'' ''2026-01-01T08:00:00.000Z'', item ''2'' ''2026-01-03T08:00:00.000Z'']" utc]
  by (simp add: item_times timeOf_def)

text \<open>
  C6 as stated fails in the recharts variant, which does not sort: the older item, received
  first, stays first.
\<close>

theorem activityItems_recent_counterexample:
  "activityItems_recharts [item ''1'' ''2026-01-01T08:00:00.000Z'', item ''2'' ''2026-01-03T08:00:00.000Z''] =
     [item ''1'' ''2026-01-01T08:00:00.000Z'', item ''2'' ''2026-01-03T08:00:00.000Z''] \<and>
   timeOf utc (item ''1'' ''2026-01-01T08:00:00.000Z'') = 1767254400000 \<and>
   timeOf utc (item ''2'' ''2026-01-03T08:00:00.000Z'') = 1767427200000"
  by (simp add: activityItems_recharts_def slice0_def timeOf_def item_times)

section \<open>Proofs: the leaderboard leaves the agents alone\<close>

lemma topAgents_store_frame:
  assumes "agentsRef < length st"
  shows "snd (topAgents_store radix k agentsRef st) =
           st @ [arraySort (compareAgents radix k) (st ! agentsRef),
                 slice0 10 (arraySort (compareAgents radix k) (st ! agentsRef))]"
    and "fst (topAgents_store radix k agentsRef st) = Suc (length st)"
  using assms
  by (simp_all add: topAgents_store_def spread_def sortInPlace_def sliceNew_def nth_append)

lemma topAgents_store_twice:
  fixes radix :: nat and ka kb :: sortKey and agentsRef :: nat and st :: "Agent store"
  assumes "agentsRef < length st"
  defines "first \<equiv> topAgents_store radix ka agentsRef st"
  defines "second \<equiv> topAgents_store radix kb agentsRef (snd first)"
  shows "take (length st) (snd first) = st \<and> take (length st) (snd second) = st \<and>
    snd second ! agentsRef = st ! agentsRef \<and>
    snd first ! fst first = slice0 10 (arraySort (compareAgents radix ka) (st ! agentsRef)) \<and>
    snd second ! fst second = slice0 10 (arraySort (compareAgents radix kb) (st ! agentsRef))"
proof -
  note f1 = topAgents_store_frame [OF assms(1), of radix ka]
  have r: "agentsRef < length (snd first)" using assms(1) by (simp add: first_def f1)
  have a1: "snd first ! agentsRef = st ! agentsRef"
    using assms(1) by (simp add: first_def f1 nth_append)
  note f2 = topAgents_store_frame [OF r, of radix kb, folded second_def]
  have 1: "take (length st) (snd first) = st" by (simp add: first_def f1)
  have 2: "take (length st) (snd second) = st" by (simp add: f2) (simp add: first_def f1)
  have 3: "snd second ! agentsRef = st ! agentsRef"
    using r a1 by (simp add: f2 nth_append)
  have 4: "snd first ! fst first = slice0 10 (arraySort (compareAgents radix ka) (st ! agentsRef))"
    by (simp add: first_def f1 nth_append)
  have 5: "snd second ! fst second = slice0 10 (arraySort (compareAgents radix kb) (st ! agentsRef))"
    by (simp add: f2 nth_append a1)
  from 1 2 3 4 5 show ?thesis by blast
qed

text \<open>
  C8. Computing the leaderboard under one sort key and then under another leaves every
  array the store held before, the agents among them, as it was (same elements, same
  order), and yields the leaderboards of the unchanged agents, in both variants. Selecting
  a sort key changes the state only in \<^verbatim>\<open>leaderboardSort\<close> and fetches nothing.
\<close>

theorem leaderboard_sort_pure:
  "(agentsRef < length st \<longrightarrow>
      take (length st) (snd (topAgents_store 10 k1 agentsRef st)) = st \<and>
      take (length st) (snd (topAgents_store 10 k2 agentsRef (snd (topAgents_store 10 k1 agentsRef st)))) = st \<and>
      snd (topAgents_store 10 k2 agentsRef (snd (topAgents_store 10 k1 agentsRef st))) ! agentsRef = st ! agentsRef \<and>
      snd (topAgents_store 10 k1 agentsRef st) ! fst (topAgents_store 10 k1 agentsRef st)
        = topAgents k1 (st ! agentsRef) \<and>
      snd (topAgents_store 10 k2 agentsRef (snd (topAgents_store 10 k1 agentsRef st))) !
        fst (topAgents_store 10 k2 agentsRef (snd (topAgents_store 10 k1 agentsRef st)))
        = topAgents k2 (st ! agentsRef) \<and>
      take (length st) (snd (topAgents_store 0 k1 agentsRef st)) = st \<and>
      take (length st) (snd (topAgents_store 0 k2 agentsRef (snd (topAgents_store 0 k1 agentsRef st)))) = st \<and>
      snd (topAgents_store 0 k2 agentsRef (snd (topAgents_store 0 k1 agentsRef st))) ! agentsRef = st ! agentsRef \<and>
      snd (topAgents_store 0 k1 agentsRef st) ! fst (topAgents_store 0 k1 agentsRef st)
        = topAgents_recharts k1 (st ! agentsRef) \<and>
      snd (topAgents_store 0 k2 agentsRef (snd (topAgents_store 0 k1 agentsRef st))) !
        fst (topAgents_store 0 k2 agentsRef (snd (topAgents_store 0 k1 agentsRef st)))
        = topAgents_recharts k2 (st ! agentsRef)) \<and>
   handle (SetLeaderboardSort k) s = (s\<lparr>leaderboardSort_st := k\<rparr>, []) \<and>
   agents_st (fst (handle (SetLeaderboardSort k) s)) = agents_st s \<and>
   stats_st (fst (handle (SetLeaderboardSort k) s)) = stats_st s \<and>
   jobs_st (fst (handle (SetLeaderboardSort k) s)) = jobs_st s \<and>
   activity_st (fst (handle (SetLeaderboardSort k) s)) = activity_st s \<and>
   snd (handle (SetLeaderboardSort k) s) = []"
proof -
  have store: "take (length st) (snd (topAgents_store 10 k1 agentsRef st)) = st \<and>
      take (length st) (snd (topAgents_store 10 k2 agentsRef (snd (topAgents_store 10 k1 agentsRef st)))) = st \<and>
      snd (topAgents_store 10 k2 agentsRef (snd (topAgents_store 10 k1 agentsRef st))) ! agentsRef = st ! agentsRef \<and>
      snd (topAgents_store 10 k1 agentsRef st) ! fst (topAgents_store 10 k1 agentsRef st)
        = topAgents k1 (st ! agentsRef) \<and>
      snd (topAgents_store 10 k2 agentsRef (snd (topAgents_store 10 k1 agentsRef st))) !
        fst (topAgents_store 10 k2 agentsRef (snd (topAgents_store 10 k1 agentsRef st)))
        = topAgents k2 (st ! agentsRef) \<and>
      take (length st) (snd (topAgents_store 0 k1 agentsRef st)) = st \<and>
      take (length st) (snd (topAgents_store 0 k2 agentsRef (snd (topAgents_store 0 k1 agentsRef st)))) = st \<and>
      snd (topAgents_store 0 k2 agentsRef (snd (topAgents_store 0 k1 agentsRef st))) ! agentsRef = st ! agentsRef \<and>
      snd (topAgents_store 0 k1 agentsRef st) ! fst (topAgents_store 0 k1 agentsRef st)
        = topAgents_recharts k1 (st ! agentsRef) \<and>
      snd (topAgents_store 0 k2 agentsRef (snd (topAgents_store 0 k1 agentsRef st))) !
        fst (topAgents_store 0 k2 agentsRef (snd (topAgents_store 0 k1 agentsRef st)))
        = topAgents_recharts k2 (st ! agentsRef)"
    if r: "agentsRef < length st"
    using topAgents_store_twice [OF r, of 10 k1 k2] topAgents_store_twice [OF r, of 0 k1 k2]
    unfolding topAgents_def topAgents_recharts_def by blast
  then show ?thesis by (simp add: handle_def)
qed

text \<open>The theorem at a store holding B (9 jobs, reputation 1) and A (5 jobs, reputation 7).\<close>

theorem leaderboard_sort_pure_witness:
  "(0::nat) < length [[agent ''B'' 9 1 ''1'', agent ''A'' 5 7 ''1'']] \<and>
   snd (topAgents_store 10 Jobs 0 (snd (topAgents_store 10 Reputation 0 [[agent ''B'' 9 1 ''1'', agent ''A'' 5 7 ''1'']]))) ! 0
     = [agent ''B'' 9 1 ''1'', agent ''A'' 5 7 ''1''] \<and>
   snd (topAgents_store 10 Reputation 0 [[agent ''B'' 9 1 ''1'', agent ''A'' 5 7 ''1'']]) !
     fst (topAgents_store 10 Reputation 0 [[agent ''B'' 9 1 ''1'', agent ''A'' 5 7 ''1'']])
     = [agent ''A'' 5 7 ''1'', agent ''B'' 9 1 ''1'']"
proof -
  have t: "topAgents Reputation [agent ''B'' 9 1 ''1'', agent ''A'' 5 7 ''1'']
      = [agent ''A'' 5 7 ''1'', agent ''B'' 9 1 ''1'']"
    by (simp add: topAgents_def slice0_def arraySort_def compareAgents_def positive_def agent_def)
  show ?thesis
    using leaderboard_sort_pure [of 0 "[[agent ''B'' 9 1 ''1'', agent ''A'' 5 7 ''1'']]" Reputation Jobs]
    by (simp add: t)
qed

section \<open>Proofs: a failed poll\<close>










section \<open>Proofs: completion rate\<close>

text \<open>
  C10. In the recharts variant a snapshot with no jobs divides zero by zero and the card
  shows \<^verbatim>\<open>NaN%\<close>; completed jobs over a total of zero show \<^verbatim>\<open>Infinity%\<close>. App.tsx guards the
  division and yields 0 for both.
\<close>

theorem completionRate_recharts_NaN:
  "completionRate_recharts (Some (statsOf 0 0)) = ''NaN'' \<and>
   completionRate_recharts (Some (statsOf 0 2)) = ''Infinity'' \<and>
   completionRateValue (Some (statsOf 0 0)) = Num 0 \<and>
   completionRateValue (Some (statsOf 0 2)) = Num 0"
  by (simp add: completionRate_recharts_def completionRateValue_def statsOf_def dividedBy_def multipliedBy_def
      toFixed1_def)

text \<open>
  App.tsx, for every stats snapshot, and without one: the completion rate is a number, 0
  unless the total is positive and then the completed jobs over the total times 100.
\<close>

theorem completionRateValue_guarded:
  "completionRateValue None = Num 0 \<and>
   completionRateValue (Some st) =
     Num (if 0 < totalJobs st then real_of_int (completedJobs st) / real_of_int (totalJobs st) * 100 else 0) \<and>
   completionRateValue stats \<noteq> NaN"
  by (cases stats) (simp_all add: completionRateValue_def dividedBy_def multipliedBy_def Let_def)


section \<open>Proofs: day keys in chronological order\<close>

lemma div_succ:
  fixes x c :: int
  assumes "0 < c"
  shows "(x + 1) div c = x div c + (if (x + 1) mod c = 0 then 1 else 0)"
proof (cases "x mod c + 1 < c")
  case True
  have "x + 1 = c * (x div c) + (x mod c + 1)" by simp
  from int_div_pos_eq [OF this _ True] int_mod_pos_eq [OF this _ True] pos_mod_sign [OF assms, of x]
  show ?thesis by simp
next
  case False
  with pos_mod_bound [OF assms, of x] have r: "x mod c = c - 1" by simp
  have "x + 1 = c * (x div c + 1) + 0"
    using mult_div_mod_eq [of c x] r by (simp add: algebra_simps)
  from int_div_pos_eq [OF this _ assms] int_mod_pos_eq [OF this _ assms]
  show ?thesis by simp
qed

lemma mod_shift: "c dvd n \<Longrightarrow> (y - n) mod c = y mod (c::int)"
  by (metis dvd_minus_iff mod_add_self2 dvdE mod_mult_self2 uminus_add_conv_diff add.commute mult.commute mult_minus_right)

lemma dayFromYear_Suc: "dayFromYear (y + 1) = dayFromYear y + 365 + inLeapYear y"
proof -
  have a: "(y - 1968) div 4 = (y - 1969) div 4 + (if y mod 4 = 0 then 1 else 0)"
    using div_succ [of 4 "y - 1969"] mod_shift [of 4 1968 y] by simp
  have b: "(y - 1900) div 100 = (y - 1901) div 100 + (if y mod 100 = 0 then 1 else 0)"
    using div_succ [of 100 "y - 1901"] mod_shift [of 100 1900 y] by simp
  have c: "(y - 1600) div 400 = (y - 1601) div 400 + (if y mod 400 = 0 then 1 else 0)"
    using div_succ [of 400 "y - 1601"] mod_shift [of 400 1600 y] by simp
  have m1: "y mod 100 = 0" if "y mod 400 = 0"
    using that mod_mod_cancel [of 100 400 y] by simp
  have m2: "y mod 4 = 0" if "y mod 100 = 0"
    using that mod_mod_cancel [of 4 100 y] by simp
  have "dayFromYear (y + 1) = 365 * (y - 1969) + (y - 1968) div 4 - (y - 1900) div 100 + (y - 1600) div 400"
    by (simp add: dayFromYear_def)
  then show ?thesis
    using m1 m2 by (auto simp: dayFromYear_def inLeapYear_def a b c)
qed

lemma inLeapYear_range: "inLeapYear y = 0 \<or> inLeapYear y = 1"
  by (simp add: inLeapYear_def)

lemma dayFromYear_less: "dayFromYear y < dayFromYear (y + 1)"
  using inLeapYear_range [of y] by (auto simp: dayFromYear_Suc)

lemma div_lo: "0 < c \<Longrightarrow> c * (x div c) \<le> (x::int)"
  using mult_div_mod_eq [of c x] pos_mod_sign [of c x] by linarith

lemma div_hi: "0 < c \<Longrightarrow> (x::int) < c * (x div c) + c"
  using mult_div_mod_eq [of c x] pos_mod_bound [of c x] by linarith

lemmas div4 = div_lo [of 4, simplified] div_hi [of 4, simplified]

lemmas div100 = div_lo [of 100, simplified] div_hi [of 100, simplified]

lemmas div400 = div_lo [of 400, simplified] div_hi [of 400, simplified]

lemma leaps_pos:
  assumes "0 \<le> (k::int)"
  shows "(k + 1) div 4 - (k + 69) div 100 + (k + 369) div 400 \<le> k"
proof -
  consider "k = 0" | "k = 1" | "2 \<le> k" using assms by linarith
  then show ?thesis
  proof cases
    case 1 then show ?thesis by simp
  next
    case 2 then show ?thesis by simp
  next
    case 3
    with div4 [of "k + 1"] div100 [of "k + 69"] div400 [of "k + 369"] show ?thesis by linarith
  qed
qed

lemma leaps_neg:
  assumes "(k::int) \<le> - 1"
  shows "(k + 1) div 4 - (k + 69) div 100 + (k + 369) div 400 \<le> 0"
proof -
  consider "k \<le> - 7" | "- 7 < k" using assms by linarith
  then show ?thesis
  proof cases
    case 1
    with div4 [of "k + 1"] div100 [of "k + 69"] div400 [of "k + 369"] show ?thesis by linarith
  next
    case 2
    with assms have "k \<in> {- 6, - 5, - 4, - 3, - 2, - 1}" by auto
    then show ?thesis by auto
  qed
qed

lemma dayFromYear_1970: "dayFromYear (1970 + k) = 365 * k + ((k + 1) div 4 - (k + 69) div 100 + (k + 369) div 400)"
  by (simp add: dayFromYear_def algebra_simps)

lemma start_below: "dayFromYear (1970 + (if 0 \<le> d then d div 366 else d div 365)) \<le> d"
proof (cases "0 \<le> d")
  case True
  define k where "k = d div 366"
  have k: "0 \<le> k" "366 * k \<le> d"
    using True div_lo [of 366 d] by (simp_all add: k_def pos_imp_zdiv_nonneg_iff)
  from leaps_pos [OF k(1)] k(2) have "dayFromYear (1970 + k) \<le> d"
    unfolding dayFromYear_1970 by linarith
  with True show ?thesis by (simp add: k_def)
next
  case False
  define k where "k = d div 365"
  have 1: "365 * k \<le> d" using div_lo [of 365 d] by (simp add: k_def)
  have 2: "k \<le> - 1" using False div_hi [of 365 d] by (simp add: k_def)
  from leaps_neg [OF 2] 1 have "dayFromYear (1970 + k) \<le> d"
    unfolding dayFromYear_1970 by linarith
  with False show ?thesis by (simp add: k_def)
qed

lemma yearFrom_bracket:
  "dayFromYear y \<le> d \<Longrightarrow> dayFromYear (yearFrom d y) \<le> d \<and> d < dayFromYear (yearFrom d y + 1)"
proof (induction d y rule: yearFrom.induct)
  case (1 d y)
  show ?case
  proof (cases "dayFromYear (y + 1) \<le> d")
    case True
    with "1.IH" have "dayFromYear (yearFrom d (y + 1)) \<le> d \<and> d < dayFromYear (yearFrom d (y + 1) + 1)"
      by simp
    moreover from True have "yearFrom d y = yearFrom d (y + 1)"
      by (subst yearFrom.simps) simp
    ultimately show ?thesis by simp
  next
    case False
    then have "yearFrom d y = y" by (subst yearFrom.simps) simp
    with False "1.prems" show ?thesis by simp
  qed
qed

lemma yearFromDay_bracket:
  "dayFromYear (yearFromDay d) \<le> d \<and> d < dayFromYear (yearFromDay d + 1)"
  unfolding yearFromDay_def by (rule yearFrom_bracket) (rule start_below)

lemma dayFromYear_mono: "y \<le> y' \<Longrightarrow> dayFromYear y \<le> dayFromYear y'"
proof (induction y' rule: int_ge_induct)
  case base
  show ?case by simp
next
  case (step i)
  with dayFromYear_less [of i] show ?case by linarith
qed

lemma yearFromDay_mono: "d \<le> d' \<Longrightarrow> yearFromDay d \<le> yearFromDay d'"
proof (rule ccontr)
  assume le: "d \<le> d'" and "\<not> yearFromDay d \<le> yearFromDay d'"
  then have "yearFromDay d' + 1 \<le> yearFromDay d" by simp
  from dayFromYear_mono [OF this] yearFromDay_bracket [of d] yearFromDay_bracket [of d'] le
  show False by linarith
qed

lemma table_range:
  assumes "0 \<le> w" "w < 365 + l" "l = 0 \<or> l = 1"
  shows "0 \<le> monthFromTime w l \<and> monthFromTime w l \<le> 11 \<and> 1 \<le> dateFromTime w l \<and> dateFromTime w l \<le> 31"
  using assms unfolding dateFromTime_def monthFromTime_def Let_def by auto

lemma table_mono:
  assumes "0 \<le> a" "a < b" "l = 0 \<or> l = 1"
  shows "monthFromTime a l < monthFromTime b l \<or>
         monthFromTime a l = monthFromTime b l \<and> dateFromTime a l < dateFromTime b l"
proof -
  have m: "monthFromTime a l \<le> monthFromTime b l"
    using assms unfolding monthFromTime_def by auto
  have "dateFromTime a l < dateFromTime b l" if "monthFromTime a l = monthFromTime b l"
    using that assms(2) unfolding dateFromTime_def Let_def by simp
  with m show ?thesis by linarith
qed

lemma civil_ranges:
  "1 \<le> fst (snd (civilFromDays d)) \<and> fst (snd (civilFromDays d)) \<le> 12 \<and>
   1 \<le> snd (snd (civilFromDays d)) \<and> snd (snd (civilFromDays d)) \<le> 31"
proof -
  let ?y = "yearFromDay d"
  have "0 \<le> d - dayFromYear ?y" "d - dayFromYear ?y < 365 + inLeapYear ?y"
    using yearFromDay_bracket [of d] by (simp_all add: dayFromYear_Suc)
  from table_range [OF this inLeapYear_range] show ?thesis
    by (simp add: civilFromDays_def Let_def)
qed

lemma civil_mono: "d < d' \<Longrightarrow> earlierDate (civilFromDays d) (civilFromDays d')"
proof -
  assume less: "d < d'"
  then have "yearFromDay d \<le> yearFromDay d'" by (intro yearFromDay_mono) simp
  then consider "yearFromDay d < yearFromDay d'" | "yearFromDay d = yearFromDay d'" by linarith
  then show ?thesis
  proof cases
    case 1
    then show ?thesis by (simp add: earlierDate_def civilFromDays_def Let_def)
  next
    case 2
    have "0 \<le> d - dayFromYear (yearFromDay d)" using yearFromDay_bracket [of d] by simp
    moreover have "d - dayFromYear (yearFromDay d) < d' - dayFromYear (yearFromDay d)" using less by simp
    ultimately have "monthFromTime (d - dayFromYear (yearFromDay d)) (inLeapYear (yearFromDay d))
          < monthFromTime (d' - dayFromYear (yearFromDay d)) (inLeapYear (yearFromDay d)) \<or>
        monthFromTime (d - dayFromYear (yearFromDay d)) (inLeapYear (yearFromDay d))
          = monthFromTime (d' - dayFromYear (yearFromDay d)) (inLeapYear (yearFromDay d)) \<and>
        dateFromTime (d - dayFromYear (yearFromDay d)) (inLeapYear (yearFromDay d))
          < dateFromTime (d' - dayFromYear (yearFromDay d)) (inLeapYear (yearFromDay d))"
      by (intro table_mono inLeapYear_range)
    then show ?thesis
      unfolding earlierDate_def civilFromDays_def Let_def 2 [symmetric] by auto
  qed
qed

lemma before_asym: "earlierDate a b \<Longrightarrow> \<not> earlierDate b a" "\<not> earlierDate a a"
  by (auto simp: earlierDate_def)

lemma civil_before_iff: "earlierDate (civilFromDays d) (civilFromDays d') \<longleftrightarrow> d < d'"
proof
  assume b: "earlierDate (civilFromDays d) (civilFromDays d')"
  show "d < d'"
  proof (rule ccontr)
    assume "\<not> d < d'"
    then consider "d = d'" | "d' < d" by linarith
    then show False
    proof cases
      case 1 with b show False by (simp add: before_asym)
    next
      case 2 from civil_mono [OF this] b show False by (simp add: before_asym)
    qed
  qed
qed (rule civil_mono)

lemma civil_eq_iff: "civilFromDays d = civilFromDays d' \<longleftrightarrow> d = d'"
proof
  assume e: "civilFromDays d = civilFromDays d'"
  show "d = d'"
  proof (rule ccontr)
    assume "d \<noteq> d'"
    then consider "d < d'" | "d' < d" by linarith
    then show False
      using civil_mono [of d d'] civil_mono [of d' d] e by cases (simp_all add: before_asym)
  qed
qed simp

declare digitsOf.simps [simp del]

lemma length_fixed [simp]: "length (zeroPadded w n) = w"
  by (induction w arbitrary: n) simp_all

lemma char_of_48: "char_of (48 :: nat) = CHR ''0''"
  by code_simp

lemma fixed_zero: "zeroPadded w 0 = replicate w CHR ''0''"
  by (induction w) (simp_all add: replicate_append_same char_of_48)

lemma length_digitsOf: "0 < w \<Longrightarrow> n < 10 ^ w \<Longrightarrow> length (digitsOf n) \<le> w"
proof (induction n arbitrary: w rule: digitsOf.induct)
  case (1 n)
  show ?case
  proof (cases "n < 10")
    case True
    with "1.prems" show ?thesis by (subst digitsOf.simps) simp
  next
    case False
    obtain v where w: "w = Suc v" using "1.prems"(1) by (cases w) auto
    have "0 < v" using False "1.prems"(2) w by (cases v) auto
    moreover have "n div 10 < 10 ^ v" using "1.prems"(2) w by (simp add: less_mult_imp_div_less)
    ultimately have "length (digitsOf (n div 10)) \<le> v" using "1.IH" False by blast
    with False w show ?thesis by (subst digitsOf.simps) simp
  qed
qed

lemma pad_fixed: "0 < w \<Longrightarrow> n < 10 ^ w \<Longrightarrow> padStart w (digitsOf n) = zeroPadded w n"
proof (induction n arbitrary: w rule: digitsOf.induct)
  case (1 n)
  obtain v where w: "w = Suc v" using "1.prems"(1) by (cases w) auto
  show ?case
  proof (cases "n < 10")
    case True
    then show ?thesis
      by (subst digitsOf.simps) (simp add: w padStart_def fixed_zero)
  next
    case False
    have v: "0 < v" using False "1.prems"(2) w by (cases v) auto
    have d: "n div 10 < 10 ^ v" using "1.prems"(2) w by (simp add: less_mult_imp_div_less)
    have IH: "padStart v (digitsOf (n div 10)) = zeroPadded v (n div 10)"
      using "1.IH" False v d by blast
    have "length (digitsOf (n div 10)) \<le> v" using v d by (rule length_digitsOf)
    then have "padStart w (digitsOf (n div 10) @ [char_of (48 + n mod 10)])
        = padStart v (digitsOf (n div 10)) @ [char_of (48 + n mod 10)]"
      by (simp add: padStart_def w Suc_diff_le)
    with IH False show ?thesis by (subst digitsOf.simps) (simp add: w)
  qed
qed

lemma digit_order:
  assumes "i < 10" "j < 10"
  shows "(char_of (48 + i :: nat) :: char) < char_of (48 + j) \<longleftrightarrow> i < j"
    and "(char_of (48 + i :: nat) :: char) = char_of (48 + j) \<longleftrightarrow> i = j"
proof -
  have o: "of_char (char_of (48 + i) :: char) = 48 + i" "of_char (char_of (48 + j) :: char) = 48 + j"
    using assms by simp_all
  show "(char_of (48 + i :: nat) :: char) < char_of (48 + j) \<longleftrightarrow> i < j"
    unfolding less_char_def o by simp
  show "(char_of (48 + i :: nat) :: char) = char_of (48 + j) \<longleftrightarrow> i = j"
    using o by (metis add_left_cancel)
qed

lemma lex_append:
  fixes a a' b b' :: "'a::linorder list"
  shows "length a = length a' \<Longrightarrow> (a @ b < a' @ b' \<longleftrightarrow> a < a' \<or> a = a' \<and> b < b')"
  by (induction a a' rule: list_induct2) auto

lemma fixed_order:
  "a < 10 ^ w \<Longrightarrow> b < 10 ^ w \<Longrightarrow>
     (zeroPadded w a < zeroPadded w b \<longleftrightarrow> a < b) \<and> (zeroPadded w a = zeroPadded w b \<longleftrightarrow> a = b)"
proof (induction w arbitrary: a b)
  case 0
  then show ?case by simp
next
  case (Suc w)
  have d: "a div 10 < 10 ^ w" "b div 10 < 10 ^ w"
    using Suc.prems by (simp_all add: less_mult_imp_div_less)
  note IH = Suc.IH [OF d]
  have m: "a mod 10 < 10" "b mod 10 < 10" by simp_all
  have eq: "a = b \<longleftrightarrow> a div 10 = b div 10 \<and> a mod 10 = b mod 10"
    by (metis div_mult_mod_eq)
  have less: "a < b \<longleftrightarrow> a div 10 < b div 10 \<or> a div 10 = b div 10 \<and> a mod 10 < b mod 10"
    using div_mult_mod_eq [of a 10] div_mult_mod_eq [of b 10] m by (cases "a div 10 = b div 10") linarith+
  show ?case
    unfolding zeroPadded.simps
    by (simp add: lex_append IH digit_order [OF m] eq less)
qed

lemma dayKey_fixed:
  assumes c: "civilFromDays (t div msPerDay) = (y, m, d)" and y: "0 \<le> y" "y \<le> 9999"
  shows "take 10 (toISOString t) = zeroPadded 4 (nat y) @ ''-'' @ zeroPadded 2 (nat m) @ ''-'' @ zeroPadded 2 (nat d)"
proof -
  from civil_ranges [of "t div msPerDay"] c
  have r: "1 \<le> m" "m \<le> 12" "1 \<le> d" "d \<le> 31" by simp_all
  have py: "padStart 4 (digitsOf (nat y)) = zeroPadded 4 (nat y)" using y by (intro pad_fixed) simp_all
  have pm: "padStart 2 (digitsOf (nat m)) = zeroPadded 2 (nat m)" using r by (intro pad_fixed) simp_all
  have pd: "padStart 2 (digitsOf (nat d)) = zeroPadded 2 (nat d)" using r by (intro pad_fixed) simp_all
  show ?thesis
    unfolding toISOString_def c Let_def prod.case py pm pd using y by simp
qed

lemma dayKey_order:
  assumes "fourDigitYear t" "fourDigitYear u"
  shows "take 10 (toISOString t) < take 10 (toISOString u) \<longleftrightarrow> t div msPerDay < u div msPerDay"
    and "take 10 (toISOString t) = take 10 (toISOString u) \<longleftrightarrow> t div msPerDay = u div msPerDay"
proof -
  obtain y m d where c: "civilFromDays (t div msPerDay) = (y, m, d)" by (cases "civilFromDays (t div msPerDay)")
  obtain y' m' d' where c': "civilFromDays (u div msPerDay) = (y', m', d')" by (cases "civilFromDays (u div msPerDay)")
  from assms c c' have y: "0 \<le> y" "y \<le> 9999" "0 \<le> y'" "y' \<le> 9999" by (simp_all add: fourDigitYear_def)
  from civil_ranges [of "t div msPerDay"] c have r: "1 \<le> m" "m \<le> 12" "1 \<le> d" "d \<le> 31" by simp_all
  from civil_ranges [of "u div msPerDay"] c' have r': "1 \<le> m'" "m' \<le> 12" "1 \<le> d'" "d' \<le> 31" by simp_all
  have oy: "(zeroPadded 4 (nat y) < zeroPadded 4 (nat y') \<longleftrightarrow> y < y') \<and> (zeroPadded 4 (nat y) = zeroPadded 4 (nat y') \<longleftrightarrow> y = y')"
    using fixed_order [of "nat y" 4 "nat y'"] y by auto
  have om: "(zeroPadded 2 (nat m) < zeroPadded 2 (nat m') \<longleftrightarrow> m < m') \<and> (zeroPadded 2 (nat m) = zeroPadded 2 (nat m') \<longleftrightarrow> m = m')"
    using fixed_order [of "nat m" 2 "nat m'"] r r' by auto
  have od: "(zeroPadded 2 (nat d) < zeroPadded 2 (nat d') \<longleftrightarrow> d < d') \<and> (zeroPadded 2 (nat d) = zeroPadded 2 (nat d') \<longleftrightarrow> d = d')"
    using fixed_order [of "nat d" 2 "nat d'"] r r' by auto
  have k: "take 10 (toISOString t) = zeroPadded 4 (nat y) @ ''-'' @ zeroPadded 2 (nat m) @ ''-'' @ zeroPadded 2 (nat d)"
    "take 10 (toISOString u) = zeroPadded 4 (nat y') @ ''-'' @ zeroPadded 2 (nat m') @ ''-'' @ zeroPadded 2 (nat d')"
    using c c' y by (simp_all add: dayKey_fixed)
  have "take 10 (toISOString t) < take 10 (toISOString u) \<longleftrightarrow> earlierDate (y, m, d) (y', m', d')"
    unfolding k earlierDate_def by (simp add: lex_append oy om od)
  then show "take 10 (toISOString t) < take 10 (toISOString u) \<longleftrightarrow> t div msPerDay < u div msPerDay"
    using civil_before_iff [of "t div msPerDay" "u div msPerDay"] c c' by simp
  have "take 10 (toISOString t) = take 10 (toISOString u) \<longleftrightarrow> (y, m, d) = (y', m', d')"
    unfolding k by (simp add: oy om od)
  then show "take 10 (toISOString t) = take 10 (toISOString u) \<longleftrightarrow> t div msPerDay = u div msPerDay"
    using civil_eq_iff [of "t div msPerDay" "u div msPerDay"] c c' by simp
qed

text \<open>
  App.tsx sorts the day keys as texts. The points of the sequence are in strictly ascending
  order of their keys; and for two time values in the years 0 to 9999 the keys compare as
  the days do: the earlier day has the smaller key, and the same day the same key.
\<close>

theorem agentsOverTime_chronological:
  "sorted_wrt (<) (map key_point (agentsOverTime env agents)) \<and>
   (fourDigitYear t \<and> fourDigitYear u \<longrightarrow>
      (take 10 (toISOString t) < take 10 (toISOString u) \<longleftrightarrow> t div msPerDay < u div msPerDay) \<and>
      (take 10 (toISOString t) = take 10 (toISOString u) \<longleftrightarrow> t div msPerDay = u div msPerDay))"
  using agentsOverTime_facts(5) [of env agents] dayKey_order [of t u] by blast

theorem agentsOverTime_chronological_witness:
  "fourDigitYear 1767222000000 \<and> fourDigitYear 1767227400000 \<and>
   1767222000000 div msPerDay < 1767227400000 div msPerDay \<and>
   take 10 (toISOString 1767222000000) < take 10 (toISOString 1767227400000)"
proof -
  have a: "fourDigitYear 1767222000000" by code_simp
  have b: "fourDigitYear 1767227400000" by code_simp
  have c: "1767222000000 div msPerDay < 1767227400000 div msPerDay" by code_simp
  from agentsOverTime_chronological [of utc "[]" 1767222000000 1767227400000] a b c
  show ?thesis by blast
qed

end
